theory Spec2Isabelle
  imports Main
begin

section \<open>Configuration loading of the Flex media server (package config)\<close>

text \<open>
  The package reads a fixed set of environment variables and assembles them into a
  \<open>Config\<close> value. The model below follows the Go source function by function:
  \<open>getEnv\<close>, \<open>getEnvAsInt\<close>, \<open>getEnvAsDuration\<close> and \<open>Load\<close>, together with
  the standard-library routines they call (\<open>os.Getenv\<close>, \<open>strings.Split\<close>,
  \<open>strconv.Atoi\<close>, \<open>time.ParseDuration\<close>).

  Go strings are byte sequences, and so is \<open>string\<close> here. Go's \<open>int\<close> is taken to
  be 64 bits wide, and \<open>time.Duration\<close> is a signed 64-bit count of nanoseconds; both are
  modelled as \<open>int\<close>, with every range check of the library written out.
\<close>

subsection \<open>Data model\<close>

type_synonym Duration = int

record AppConfig =
  Name :: string
  Environment :: string
  Host :: string
  Port :: string
  Origins :: "string list"

record DatabaseConfig =
  Host :: string
  Port :: string
  User :: string
  Password :: string
  Name :: string
  SSLMode :: string
  MaxConnections :: int
  MaxIdleTime :: Duration

record RedisConfig =
  Host :: string
  Port :: string
  Password :: string
  DB :: int

record JWTConfig =
  Secret :: string
  ExpiresIn :: Duration

record MediaConfig =
  RootPath :: string
  UploadPath :: string
  PosterPath :: string
  ThumbnailPath :: string
  FFmpegPath :: string
  MediaInfoPath :: string

record ExternalConfig =
  TMDBAPIKey :: string
  OMDBAPIKey :: string

record LoggingConfig =
  Level :: string
  Format :: string

record Config =
  App :: AppConfig
  Database :: DatabaseConfig
  Redis :: RedisConfig
  JWT :: JWTConfig
  Media :: MediaConfig
  External :: ExternalConfig
  Logging :: LoggingConfig

text \<open>
  The errors the standard-library parsers report. \<open>Load\<close> has an error result as well,
  which is why the type is shared.
\<close>

datatype error =
    ErrSyntax
  | ErrRange
  | InvalidDuration
  | MissingUnit
  | UnknownUnit string

subsection \<open>The process environment\<close>

text \<open>
  The environment maps variable names to values. \<open>os.Getenv\<close> returns the value of the
  variable, which is the empty string when the variable is not present.
\<close>

type_synonym environ = "string \<rightharpoonup> string"

definition Getenv :: "environ \<Rightarrow> string \<Rightarrow> string" where
  "Getenv env key = (case env key of None \<Rightarrow> [] | Some v \<Rightarrow> v)"

subsection \<open>\<open>time\<close> constants\<close>

definition Nanosecond :: Duration where "Nanosecond = 1"
definition Microsecond :: Duration where "Microsecond = 1000 * Nanosecond"
definition Millisecond :: Duration where "Millisecond = 1000 * Microsecond"
definition Second :: Duration where "Second = 1000 * Millisecond"
definition Minute :: Duration where "Minute = 60 * Second"
definition Hour :: Duration where "Hour = 60 * Minute"

subsection \<open>\<open>strings.Split\<close> with a one-byte separator\<close>

text \<open>
  \<open>IndexByte s c\<close> is the position of the first \<open>c\<close> in \<open>s\<close>; Go returns \<open>-1\<close> when
  there is none, which is \<open>None\<close> here.
\<close>

fun IndexByte :: "string \<Rightarrow> char \<Rightarrow> nat option" where
  "IndexByte [] c = None"
| "IndexByte (x # s) c =
     (if x = c then Some 0
      else (case IndexByte s c of None \<Rightarrow> None | Some m \<Rightarrow> Some (Suc m)))"

lemma IndexByte_less: "IndexByte s c = Some m \<Longrightarrow> m < length s"
  by (induction s arbitrary: m) (auto split: if_splits option.splits)

text \<open>
  The loop of \<open>genSplit\<close> for an unlimited count: cut at the next separator, keep the
  piece before it and go on after it; what is left when no separator remains is the last
  piece.
\<close>

function Split :: "string \<Rightarrow> char \<Rightarrow> string list" where
  "Split s sep =
     (case IndexByte s sep of
        None \<Rightarrow> [s]
      | Some m \<Rightarrow> take m s # Split (drop (m + 1) s) sep)"
  by pat_completeness auto
termination
  by (relation "measure (\<lambda>(s, sep). length s)") (auto dest: IndexByte_less)

declare Split.simps [simp del]

subsection \<open>\<open>strconv.Atoi\<close>\<close>

text \<open>
  Decimal digits as bytes. Go tests \<open>ch - '0' > 9\<close> on an unsigned byte, which holds
  exactly when \<open>ch\<close> is outside \<open>'0'..'9'\<close>.
\<close>

definition isDigit :: "char \<Rightarrow> bool" where
  "isDigit c = (48 \<le> (of_char c :: nat) \<and> (of_char c :: nat) \<le> 57)"

definition digitVal :: "char \<Rightarrow> nat" where
  "digitVal c = of_char c - 48"

definition maxUint64 :: nat where
  "maxUint64 = 2 ^ 64 - 1"

text \<open>
  The fast path of \<open>Atoi\<close>, taken for inputs of 1 to 18 bytes: the digits are
  accumulated in an \<open>int\<close>, which cannot overflow at that length.
\<close>

fun Atoi_fast_loop :: "string \<Rightarrow> int \<Rightarrow> error + int" where
  "Atoi_fast_loop [] n = Inr n"
| "Atoi_fast_loop (ch # s) n =
     (if \<not> isDigit ch then Inl ErrSyntax
      else Atoi_fast_loop s (n * 10 + int (digitVal ch)))"

definition Atoi_fast :: "string \<Rightarrow> error + int" where
  "Atoi_fast s0 =
     (case s0 of
        [] \<Rightarrow> Inl ErrSyntax \<comment> \<open>not reached: \<open>Atoi\<close> takes this path for non-empty input only\<close>
      | c0 # rest \<Rightarrow>
          let signed = (c0 = CHR ''-'' \<or> c0 = CHR ''+'');
              s = (if signed then rest else s0)
          in if signed \<and> length s < 1 then Inl ErrSyntax
             else (case Atoi_fast_loop s 0 of
                     Inl e \<Rightarrow> Inl e
                   | Inr n \<Rightarrow> Inr (if c0 = CHR ''-'' then - n else n)))"

text \<open>
  The slow path is \<open>ParseInt s 10 0\<close>, which parses the magnitude with \<open>ParseUint\<close>.
  In base 10 every byte that is not a decimal digit is a syntax error. \<open>ParseUint\<close>
  returns a value together with an optional error, as the Go function does: on overflow
  the value is the maximum and the error is \<open>ErrRange\<close>.
\<close>

fun ParseUint_loop :: "string \<Rightarrow> nat \<Rightarrow> nat \<times> error option" where
  "ParseUint_loop [] n = (n, None)"
| "ParseUint_loop (c # s) n =
     (if \<not> isDigit c then (0, Some ErrSyntax)
      else if n \<ge> maxUint64 div 10 + 1 then (maxUint64, Some ErrRange)
      else (let n1 = n * 10 + digitVal c
            in if n1 > maxUint64 then (maxUint64, Some ErrRange)
               else ParseUint_loop s n1))"

definition ParseUint :: "string \<Rightarrow> nat \<times> error option" where
  "ParseUint s = (if s = [] then (0, Some ErrSyntax) else ParseUint_loop s 0)"

definition ParseInt :: "string \<Rightarrow> error + int" where
  "ParseInt s0 =
     (case s0 of
        [] \<Rightarrow> Inl ErrSyntax
      | c0 # rest \<Rightarrow>
          let neg = (c0 = CHR ''-'');
              s = (if c0 = CHR ''+'' \<or> c0 = CHR ''-'' then rest else s0);
              (un, err) = ParseUint s;
              cutoff = (2::nat) ^ 63
          in (case (if err = Some ErrRange then None else err) of
                Some e \<Rightarrow> Inl e
              | None \<Rightarrow>
                  if \<not> neg \<and> un \<ge> cutoff then Inl ErrRange
                  else if neg \<and> un > cutoff then Inl ErrRange
                  else Inr (if neg then - int un else int un)))"

definition Atoi :: "string \<Rightarrow> error + int" where
  "Atoi s = (if 0 < length s \<and> length s < 19 then Atoi_fast s else ParseInt s)"

subsection \<open>\<open>time.ParseDuration\<close>\<close>

text \<open>
  \<open>leadingInt\<close> consumes the leading digits of a string and returns their value and the
  rest, failing when the value exceeds \<open>2^63\<close>. The accumulator is the second
  argument.
\<close>

fun leadingInt :: "string \<Rightarrow> nat \<Rightarrow> error + (nat \<times> string)" where
  "leadingInt [] x = Inr (x, [])"
| "leadingInt (c # s) x =
     (if \<not> isDigit c then Inr (x, c # s)
      else if x > 2 ^ 63 div 10 then Inl InvalidDuration
      else (let x' = x * 10 + digitVal c
            in if x' > 2 ^ 63 then Inl InvalidDuration else leadingInt s x'))"

text \<open>
  \<open>leadingFraction\<close> consumes the digits after the decimal point. It never fails: once
  the value would overflow it stops accumulating and skips the remaining digits. The
  scale is a power of ten (at most \<open>10^19\<close>, which a \<open>float64\<close> holds exactly).
\<close>

fun leadingFraction :: "string \<Rightarrow> nat \<Rightarrow> nat \<Rightarrow> bool \<Rightarrow> nat \<times> nat \<times> string" where
  "leadingFraction [] x scale overflow = (x, scale, [])"
| "leadingFraction (c # s) x scale overflow =
     (if \<not> isDigit c then (x, scale, c # s)
      else if overflow then leadingFraction s x scale True
      else if x > (2 ^ 63 - 1) div 10 then leadingFraction s x scale True
      else (let y = x * 10 + digitVal c
            in if y > 2 ^ 63 then leadingFraction s x scale True
               else leadingFraction s y (scale * 10) False))"

text \<open>The units of \<open>unitMap\<close>; the two spellings of the micro sign are UTF-8 byte pairs.\<close>

definition unitMap :: "string \<Rightarrow> nat option" where
  "unitMap u =
     (if u = ''ns'' then Some (nat Nanosecond)
      else if u = ''us'' then Some (nat Microsecond)
      else if u = [CHR 0xC2, CHR 0xB5, CHR ''s''] then Some (nat Microsecond)
      else if u = [CHR 0xCE, CHR 0xBC, CHR ''s''] then Some (nat Microsecond)
      else if u = ''ms'' then Some (nat Millisecond)
      else if u = ''s'' then Some (nat Second)
      else if u = ''m'' then Some (nat Minute)
      else if u = ''h'' then Some (nat Hour)
      else None)"

definition isUnitByte :: "char \<Rightarrow> bool" where
  "isUnitByte c = (\<not> (c = CHR ''.'' \<or> isDigit c))"

text \<open>
  One round of the loop of \<open>ParseDuration\<close>: a number, an optional fraction and a unit.
  The result is the value of the group in nanoseconds and the rest of the string.

  The fraction is converted by the floating-point expression
  \<open>uint64(float64(f) * (float64(unit) / scale))\<close>. Floating-point arithmetic is not
  modelled: the conversion is the parameter \<open>frac\<close>, applied to \<open>f\<close>, the unit and the
  scale. It is consulted only when the fraction is non-zero. Unsigned 64-bit additions
  wrap, which is written out.
\<close>

definition startsWith :: "string \<Rightarrow> char \<Rightarrow> bool" where
  "startsWith s c = (case s of [] \<Rightarrow> False | x # _ \<Rightarrow> x = c)"

definition parseGroup ::
  "(nat \<Rightarrow> nat \<Rightarrow> nat \<Rightarrow> nat) \<Rightarrow> string \<Rightarrow> error + (nat \<times> string)" where
  "parseGroup frac s =
     (case s of
        [] \<Rightarrow> Inl InvalidDuration \<comment> \<open>not reached: the loop runs on a non-empty rest only\<close>
      | c0 # _ \<Rightarrow>
     if \<not> (c0 = CHR ''.'' \<or> isDigit c0) then Inl InvalidDuration
     else (case leadingInt s 0 of
        Inl e \<Rightarrow> Inl InvalidDuration
      | Inr (v, s1) \<Rightarrow>
          let pre = (length s \<noteq> length s1);
              (f, scale, s2) =
                 (if startsWith s1 (CHR ''.'')
                  then leadingFraction (tl s1) 0 1 False else (0, 1, s1));
              post = (startsWith s1 (CHR ''.'') \<and> length (tl s1) \<noteq> length s2)
          in if \<not> pre \<and> \<not> post then Inl InvalidDuration
             else
               let u = takeWhile isUnitByte s2;
                   s3 = dropWhile isUnitByte s2
               in if u = [] then Inl MissingUnit
                  else (case unitMap u of
                    None \<Rightarrow> Inl (UnknownUnit u)
                  | Some unit \<Rightarrow>
                      if v > 2 ^ 63 div unit then Inl InvalidDuration
                      else
                        let v1 = v * unit;
                            v2 = (if f > 0 then (v1 + frac f unit scale mod 2 ^ 64) mod 2 ^ 64
                                  else v1)
                        in if f > 0 \<and> v2 > 2 ^ 63 then Inl InvalidDuration
                           else Inr (v2, s3))))"

lemma leadingInt_length: "leadingInt s x = Inr (v, r) \<Longrightarrow> length r \<le> length s"
  by (induction s x rule: leadingInt.induct) (auto simp: Let_def split: if_splits)

lemma leadingFraction_length:
  "leadingFraction s x sc ov = (f, sc', r) \<Longrightarrow> length r \<le> length s"
  by (induction s x sc ov rule: leadingFraction.induct) (auto simp: Let_def split: if_splits)

lemma parseGroup_shorter:
  assumes "parseGroup frac s = Inr (v, r)"
  shows "length r < length s"
proof -
  from assms obtain v0 s1 where li: "leadingInt s 0 = Inr (v0, s1)"
    by (auto simp: parseGroup_def split: list.splits if_splits sum.splits)
  obtain f sc s2 where lf:
    "(if startsWith s1 (CHR ''.'') then leadingFraction (tl s1) 0 1 False else (0, 1, s1))
       = (f, sc, s2)"
    by (metis prod_cases3)
  have l1: "length s1 \<le> length s"
    using li by (rule leadingInt_length)
  have l2: "length s2 \<le> length s1"
  proof (cases "startsWith s1 (CHR ''.'')")
    case True
    with lf have "length s2 \<le> length (tl s1)"
      by (auto dest: leadingFraction_length)
    then show ?thesis by simp
  next
    case False
    with lf show ?thesis by simp
  qed
  from assms li lf have r: "r = dropWhile isUnitByte s2" and u: "takeWhile isUnitByte s2 \<noteq> []"
    by (auto simp: parseGroup_def Let_def split: list.splits if_splits option.splits)
  have "length (takeWhile isUnitByte s2) + length (dropWhile isUnitByte s2) = length s2"
    by (metis length_append takeWhile_dropWhile_id)
  with u r have "length r < length s2"
    by (cases "takeWhile isUnitByte s2") auto
  with l1 l2 show ?thesis by simp
qed

text \<open>
  The loop of \<open>ParseDuration\<close>: groups are parsed and added up until the string is
  used up. The sum is an unsigned 64-bit value.
\<close>

function durLoop ::
  "(nat \<Rightarrow> nat \<Rightarrow> nat \<Rightarrow> nat) \<Rightarrow> string \<Rightarrow> nat \<Rightarrow> error + nat" where
  "durLoop frac s d =
     (if s = [] then Inr d
      else (case parseGroup frac s of
              Inl e \<Rightarrow> Inl e
            | Inr (v, r) \<Rightarrow>
                let d' = (d + v) mod 2 ^ 64
                in if d' > 2 ^ 63 then Inl InvalidDuration else durLoop frac r d'))"
  by pat_completeness auto
termination
  by (relation "measure (\<lambda>(frac, s, d). length s)") (auto dest: parseGroup_shorter)

declare durLoop.simps [simp del]

definition ParseDuration ::
  "(nat \<Rightarrow> nat \<Rightarrow> nat \<Rightarrow> nat) \<Rightarrow> string \<Rightarrow> error + Duration" where
  "ParseDuration frac orig =
     (let neg = startsWith orig (CHR ''-'');
          s = (if startsWith orig (CHR ''-'') \<or> startsWith orig (CHR ''+'')
               then tl orig else orig)
      in if s = ''0'' then Inr 0
         else if s = [] then Inl InvalidDuration
         else (case durLoop frac s 0 of
                 Inl e \<Rightarrow> Inl e
               | Inr d \<Rightarrow>
                   if neg then Inr (- int d)
                   else if d > 2 ^ 63 - 1 then Inl InvalidDuration
                   else Inr (int d)))"

subsection \<open>The helpers of package config\<close>

definition getEnv :: "environ \<Rightarrow> string \<Rightarrow> string \<Rightarrow> string" where
  "getEnv env key defaultValue =
     (let v = Getenv env key in if v \<noteq> [] then v else defaultValue)"

definition getEnvAsInt :: "environ \<Rightarrow> string \<Rightarrow> int \<Rightarrow> int" where
  "getEnvAsInt env key defaultValue =
     (let v = Getenv env key
      in if v \<noteq> []
         then (case Atoi v of Inr intValue \<Rightarrow> intValue | Inl err \<Rightarrow> defaultValue)
         else defaultValue)"

definition getEnvAsDuration ::
  "(nat \<Rightarrow> nat \<Rightarrow> nat \<Rightarrow> nat) \<Rightarrow> environ \<Rightarrow> string \<Rightarrow> Duration \<Rightarrow> Duration" where
  "getEnvAsDuration frac env key defaultValue =
     (let v = Getenv env key
      in if v \<noteq> []
         then (case ParseDuration frac v of Inr duration \<Rightarrow> duration | Inl err \<Rightarrow> defaultValue)
         else defaultValue)"

subsection \<open>\<open>Load\<close>\<close>

text \<open>
  \<open>Load\<close> returns two values, the configuration and an error, which is \<open>None\<close> for
  Go's \<open>nil\<close>. Its first argument is the fraction conversion of \<open>ParseDuration\<close>.
\<close>

definition Load :: "(nat \<Rightarrow> nat \<Rightarrow> nat \<Rightarrow> nat) \<Rightarrow> environ \<Rightarrow> Config \<times> error option" where
  "Load frac env =
    (\<lparr> App = \<lparr>
         AppConfig.Name = getEnv env ''APP_NAME'' ''Flex Media Server'',
         Environment = getEnv env ''ENV'' ''development'',
         AppConfig.Host = getEnv env ''HOST'' ''0.0.0.0'',
         AppConfig.Port = getEnv env ''PORT'' ''8080'',
         Origins = Split (getEnv env ''ALLOWED_ORIGINS'' ''http://localhost:3000'') (CHR '','') \<rparr>,
       Database = \<lparr>
         DatabaseConfig.Host = getEnv env ''DB_HOST'' ''localhost'',
         DatabaseConfig.Port = getEnv env ''DB_PORT'' ''5432'',
         User = getEnv env ''DB_USER'' ''flex_user'',
         DatabaseConfig.Password = getEnv env ''DB_PASSWORD'' ''flex_password'',
         DatabaseConfig.Name = getEnv env ''DB_NAME'' ''flex_dev'',
         SSLMode = getEnv env ''DB_SSLMODE'' ''disable'',
         MaxConnections = getEnvAsInt env ''DB_MAX_CONNECTIONS'' 25,
         MaxIdleTime = getEnvAsDuration frac env ''DB_MAX_IDLE_TIME'' (15 * Minute) \<rparr>,
       Redis = \<lparr>
         RedisConfig.Host = getEnv env ''REDIS_HOST'' ''localhost'',
         RedisConfig.Port = getEnv env ''REDIS_PORT'' ''6379'',
         RedisConfig.Password = getEnv env ''REDIS_PASSWORD'' [],
         DB = getEnvAsInt env ''REDIS_DB'' 0 \<rparr>,
       JWT = \<lparr>
         Secret = getEnv env ''JWT_SECRET'' ''your-secret-key'',
         ExpiresIn = getEnvAsDuration frac env ''JWT_EXPIRES_IN'' (24 * Hour) \<rparr>,
       Media = \<lparr>
         RootPath = getEnv env ''MEDIA_ROOT_PATH'' ''/media/library'',
         UploadPath = getEnv env ''UPLOAD_PATH'' ''/tmp/flex-uploads'',
         PosterPath = getEnv env ''POSTER_PATH'' ''/tmp/flex-posters'',
         ThumbnailPath = getEnv env ''THUMBNAIL_PATH'' ''/tmp/flex-thumbnails'',
         FFmpegPath = getEnv env ''FFMPEG_PATH'' ''ffmpeg'',
         MediaInfoPath = getEnv env ''MEDIAINFO_PATH'' ''mediainfo'' \<rparr>,
       External = \<lparr>
         TMDBAPIKey = getEnv env ''TMDB_API_KEY'' [],
         OMDBAPIKey = getEnv env ''OMDB_API_KEY'' [] \<rparr>,
       Logging = \<lparr>
         Level = getEnv env ''LOG_LEVEL'' ''info'',
         Format = getEnv env ''LOG_FORMAT'' ''console'' \<rparr> \<rparr>,
     None)"

text \<open>
  The witnesses below need some concrete conversion to run \<open>Load\<close> on. \<open>exactFrac\<close> is
  the quotient in exact arithmetic, rounded down. It is not the library's conversion:
  \<open>float64\<close> arithmetic rounds the quotient of unit and scale and then the product, and can
  come out one lower (at \<open>f = 750\<close>, unit \<open>3600000000000\<close> and scale \<open>10^14\<close> the exact
  quotient is 27 and the library computes 26). No theorem about \<open>Load\<close> depends on it:
  they hold for every conversion. Where a witness runs it on a fraction, that is on five
  tenths of an hour, where both give 1800000000000.
\<close>

definition exactFrac :: "nat \<Rightarrow> nat \<Rightarrow> nat \<Rightarrow> nat" where
  "exactFrac f unit scale = f * unit div scale"

text \<open>
  \<open>strings.Join\<close> with a one-byte separator. \<open>Load\<close> does not call it; it serves to
  state what splitting preserves.
\<close>

fun Join :: "string list \<Rightarrow> char \<Rightarrow> string" where
  "Join [] sep = []"
| "Join [x] sep = x"
| "Join (x # y # xs) sep = x @ sep # Join (y # xs) sep"


subsection \<open>Vocabulary of the specification\<close>

text \<open>
  The default table of the specification (section 4.1), written as a configuration. The
  two durations are 15 minutes and 24 hours in nanoseconds.
\<close>

definition spec_defaults :: Config where
  "spec_defaults =
     \<lparr> App = \<lparr>
         AppConfig.Name = ''Flex Media Server'',
         Environment = ''development'',
         AppConfig.Host = ''0.0.0.0'',
         AppConfig.Port = ''8080'',
         Origins = [''http://localhost:3000''] \<rparr>,
       Database = \<lparr>
         DatabaseConfig.Host = ''localhost'',
         DatabaseConfig.Port = ''5432'',
         User = ''flex_user'',
         DatabaseConfig.Password = ''flex_password'',
         DatabaseConfig.Name = ''flex_dev'',
         SSLMode = ''disable'',
         MaxConnections = 25,
         MaxIdleTime = 15 * 60 * 1000000000 \<rparr>,
       Redis = \<lparr>
         RedisConfig.Host = ''localhost'',
         RedisConfig.Port = ''6379'',
         RedisConfig.Password = [],
         DB = 0 \<rparr>,
       JWT = \<lparr>
         Secret = ''your-secret-key'',
         ExpiresIn = 24 * 60 * 60 * 1000000000 \<rparr>,
       Media = \<lparr>
         RootPath = ''/media/library'',
         UploadPath = ''/tmp/flex-uploads'',
         PosterPath = ''/tmp/flex-posters'',
         ThumbnailPath = ''/tmp/flex-thumbnails'',
         FFmpegPath = ''ffmpeg'',
         MediaInfoPath = ''mediainfo'' \<rparr>,
       External = \<lparr>
         TMDBAPIKey = [],
         OMDBAPIKey = [] \<rparr>,
       Logging = \<lparr>
         Level = ''info'',
         Format = ''console'' \<rparr> \<rparr>"

text \<open>The names in that table: the variables \<open>Load\<close> looks up.\<close>

definition consulted :: "string list" where
  "consulted =
     [''APP_NAME'', ''ENV'', ''HOST'', ''PORT'', ''ALLOWED_ORIGINS'',
      ''DB_HOST'', ''DB_PORT'', ''DB_USER'', ''DB_PASSWORD'', ''DB_NAME'', ''DB_SSLMODE'',
      ''DB_MAX_CONNECTIONS'', ''DB_MAX_IDLE_TIME'',
      ''REDIS_HOST'', ''REDIS_PORT'', ''REDIS_PASSWORD'', ''REDIS_DB'',
      ''JWT_SECRET'', ''JWT_EXPIRES_IN'',
      ''MEDIA_ROOT_PATH'', ''UPLOAD_PATH'', ''POSTER_PATH'', ''THUMBNAIL_PATH'',
      ''FFMPEG_PATH'', ''MEDIAINFO_PATH'',
      ''TMDB_API_KEY'', ''OMDB_API_KEY'',
      ''LOG_LEVEL'', ''LOG_FORMAT'']"

text \<open>
  The rule of the specification for a string field: a non-empty value of the variable is
  taken verbatim; an unset or empty variable gives the default literal.
\<close>

definition string_field_resolved :: "environ \<Rightarrow> string \<Rightarrow> string \<Rightarrow> string \<Rightarrow> bool" where
  "string_field_resolved env key dflt field \<longleftrightarrow>
     (\<forall>v. env key = Some v \<and> v \<noteq> [] \<longrightarrow> field = v)
     \<and> (env key = None \<or> env key = Some [] \<longrightarrow> field = dflt)"

text \<open>
  What it means for a string to parse as a base-10 integer: an optional sign followed by
  at least one decimal digit, denoting a value that a 64-bit \<open>int\<close> holds. \<open>decimal\<close> is
  the number a digit string denotes.
\<close>

definition decimal :: "string \<Rightarrow> nat" where
  "decimal ds = foldl (\<lambda>n c. n * 10 + digitVal c) 0 ds"

definition isNumeral :: "string \<Rightarrow> bool" where
  "isNumeral ds \<longleftrightarrow> ds \<noteq> [] \<and> list_all isDigit ds"

definition parseDecimal :: "string \<Rightarrow> int option" where
  "parseDecimal s =
     (case s of
        [] \<Rightarrow> None
      | c # r \<Rightarrow>
          let neg = (c = CHR ''-'');
              ds = (if c = CHR ''+'' \<or> c = CHR ''-'' then r else s)
          in if isNumeral ds \<and> (if neg then decimal ds \<le> 2 ^ 63 else decimal ds < 2 ^ 63)
             then Some (if neg then - int (decimal ds) else int (decimal ds))
             else None)"

text \<open>
  What it means for a string to be a duration, in the words of the library's
  documentation: a possibly signed sequence of decimal numbers, each with an optional
  fraction and a unit suffix. One such number with its unit is a group: the digits before
  the point, the digits after it when there is a point, and the unit.
\<close>

datatype dgroup = DGroup (whole: string) (fraction: "string option") (suffix: string)

fun render :: "dgroup \<Rightarrow> string" where
  "render (DGroup ds fo u) =
     ds @ (case fo of None \<Rightarrow> [] | Some fs \<Rightarrow> CHR ''.'' # fs) @ u"

text \<open>
  Cutting the next group off a string: the longest run of digits, then a point and the
  longest run of digits if a point follows, then the longest run of bytes that are neither
  digits nor points. A group needs a digit on one side of the point at least, and a
  non-empty unit.
\<close>

definition splitGroup :: "string \<Rightarrow> (dgroup \<times> string) option" where
  "splitGroup s =
     (let ds = takeWhile isDigit s;
          s1 = dropWhile isDigit s;
          fo = (if startsWith s1 (CHR ''.'') then Some (takeWhile isDigit (tl s1)) else None);
          s2 = (if startsWith s1 (CHR ''.'') then dropWhile isDigit (tl s1) else s1);
          u = takeWhile isUnitByte s2
      in if ds = [] \<and> (fo = None \<or> fo = Some []) then None
         else if u = [] then None
         else Some (DGroup ds fo u, dropWhile isUnitByte s2))"

lemma splitGroup_shorter:
  assumes "splitGroup s = Some (g, r)"
  shows "length r < length s"
proof -
  define s1 where "s1 = dropWhile isDigit s"
  define s2 where "s2 = (if startsWith s1 (CHR ''.'') then dropWhile isDigit (tl s1) else s1)"
  from assms have r: "r = dropWhile isUnitByte s2" and u: "takeWhile isUnitByte s2 \<noteq> []"
    by (auto simp: splitGroup_def Let_def s1_def s2_def split: if_splits)
  have "length s2 \<le> length s1"
    by (auto simp: s2_def intro: le_trans [OF length_dropWhile_le])
  moreover have "length s1 \<le> length s"
    by (simp add: s1_def length_dropWhile_le)
  moreover have "length (takeWhile isUnitByte s2) + length (dropWhile isUnitByte s2) = length s2"
    by (metis length_append takeWhile_dropWhile_id)
  moreover have "0 < length (takeWhile isUnitByte s2)"
    using u by simp
  ultimately show ?thesis
    unfolding r by linarith
qed

function splitGroups :: "string \<Rightarrow> dgroup list option" where
  "splitGroups s =
     (if s = [] then Some []
      else (case splitGroup s of
              None \<Rightarrow> None
            | Some (g, r) \<Rightarrow>
                (case splitGroups r of None \<Rightarrow> None | Some gs \<Rightarrow> Some (g # gs))))"
  by pat_completeness auto
termination
  by (relation "measure length") (auto dest: splitGroup_shorter)

declare splitGroups.simps [simp del]

text \<open>
  The digits after the point count as far as their value stays within \<open>2^63\<close>; the
  digits from the first one that would exceed it are ignored.
\<close>

fun keepFitting :: "string \<Rightarrow> string \<Rightarrow> string" where
  "keepFitting pre [] = pre"
| "keepFitting pre (c # cs) =
     (if decimal (pre @ [c]) \<le> 2 ^ 63 then keepFitting (pre @ [c]) cs else pre)"

definition usedFraction :: "string \<Rightarrow> string" where
  "usedFraction fs = keepFitting [] fs"

text \<open>
  The nanoseconds a group denotes: the whole part times the unit, plus the fraction of
  the unit when the fraction is not zero. The unit has to be known, the whole part times
  the unit has to stay within \<open>2^63\<close>, and so has the sum with the fraction.
\<close>

definition groupValue :: "(nat \<Rightarrow> nat \<Rightarrow> nat \<Rightarrow> nat) \<Rightarrow> dgroup \<Rightarrow> nat option" where
  "groupValue frac g =
     (case unitMap (suffix g) of
        None \<Rightarrow> None
      | Some k \<Rightarrow>
          if decimal (whole g) > 2 ^ 63 div k then None
          else
            let p = (case fraction g of None \<Rightarrow> [] | Some fs \<Rightarrow> usedFraction fs);
                v1 = decimal (whole g) * k;
                v = (if decimal p > 0
                     then (v1 + frac (decimal p) k (10 ^ length p) mod 2 ^ 64) mod 2 ^ 64
                     else v1)
            in if decimal p > 0 \<and> v > 2 ^ 63 then None else Some v)"

text \<open>
  The groups are added up as unsigned 64-bit numbers; no partial sum may exceed \<open>2^63\<close>.
\<close>

fun sumGroups :: "(nat \<Rightarrow> nat \<Rightarrow> nat \<Rightarrow> nat) \<Rightarrow> dgroup list \<Rightarrow> nat \<Rightarrow> nat option" where
  "sumGroups frac [] d = Some d"
| "sumGroups frac (g # gs) d =
     (case groupValue frac g of
        None \<Rightarrow> None
      | Some v \<Rightarrow>
          let d' = (d + v) mod 2 ^ 64
          in if d' > 2 ^ 63 then None else sumGroups frac gs d')"

text \<open>
  The duration a string denotes, if it denotes one: an optional sign, then either the
  single digit \<open>0\<close> or at least one group; the groups' sum, negated after a minus sign,
  has to fit a signed 64-bit number.
\<close>

definition durationValue :: "(nat \<Rightarrow> nat \<Rightarrow> nat \<Rightarrow> nat) \<Rightarrow> string \<Rightarrow> Duration option" where
  "durationValue frac s =
     (let neg = startsWith s (CHR ''-'');
          body = (if startsWith s (CHR ''-'') \<or> startsWith s (CHR ''+'') then tl s else s)
      in if body = ''0'' then Some 0
         else if body = [] then None
         else (case splitGroups body of
                 None \<Rightarrow> None
               | Some gs \<Rightarrow>
                   (case sumGroups frac gs 0 of
                      None \<Rightarrow> None
                    | Some d \<Rightarrow>
                        if neg then Some (- int d)
                        else if d > 2 ^ 63 - 1 then None
                        else Some (int d))))"

text \<open>
  Groups as the grammar writes them: digits, optionally a point and digits, with at least
  one digit in all, and one of the known units. \<open>startsGroup\<close> holds of a string that is
  empty or begins like a group.
\<close>

definition wellFormed :: "dgroup \<Rightarrow> bool" where
  "wellFormed g \<longleftrightarrow>
     list_all isDigit (whole g)
     \<and> (case fraction g of
          None \<Rightarrow> whole g \<noteq> []
        | Some fs \<Rightarrow> list_all isDigit fs \<and> (whole g \<noteq> [] \<or> fs \<noteq> []))
     \<and> unitMap (suffix g) \<noteq> None"

definition startsGroup :: "string \<Rightarrow> bool" where
  "startsGroup s = (case s of [] \<Rightarrow> True | c # _ \<Rightarrow> c = CHR ''.'' \<or> isDigit c)"

section \<open>Properties\<close>

subsection \<open>Splitting\<close>

lemma IndexByte_None: "IndexByte s c = None \<longleftrightarrow> c \<notin> set s"
  by (induction s) (auto split: option.splits)

lemma IndexByte_Some:
  "IndexByte s c = Some m \<Longrightarrow> c \<notin> set (take m s) \<and> m < length s \<and> s ! m = c"
  by (induction s arbitrary: m) (auto split: if_splits option.splits)

lemma Split_not_Nil: "Split s c \<noteq> []"
  by (subst Split.simps) (simp split: option.split)

lemma Split_no_sep: "x \<in> set (Split s c) \<Longrightarrow> c \<notin> set x"
proof (induction s c arbitrary: x rule: Split.induct)
  case (1 s sep)
  show ?case
  proof (cases "IndexByte s sep")
    case None
    with "1.prems" have "x = s"
      by (subst (asm) Split.simps) simp
    with None show ?thesis by (simp add: IndexByte_None)
  next
    case (Some m)
    with "1.prems" have "x = take m s \<or> x \<in> set (Split (drop (m + 1) s) sep)"
      by (subst (asm) Split.simps) simp
    then show ?thesis
      using "1.IH" [OF Some] IndexByte_Some [OF Some] by auto
  qed
qed

lemma Join_Cons: "ys \<noteq> [] \<Longrightarrow> Join (x # ys) c = x @ c # Join ys c"
  by (cases ys) simp_all

lemma Join_Split: "Join (Split s c) c = s"
proof (induction s c rule: Split.induct)
  case (1 s sep)
  show ?case
  proof (cases "IndexByte s sep")
    case None
    then show ?thesis by (subst Split.simps) simp
  next
    case (Some m)
    from IndexByte_Some [OF Some] have m: "m < length s" and c: "s ! m = sep" by simp_all
    have "Join (Split s sep) sep = take m s @ sep # Join (Split (drop (m + 1) s) sep) sep"
      using Some by (subst Split.simps) (simp add: Join_Cons Split_not_Nil)
    also have "\<dots> = take m s @ s ! m # drop (Suc m) s"
      using "1.IH" [OF Some] c by simp
    also have "\<dots> = s"
      using m by (simp add: id_take_nth_drop [symmetric])
    finally show ?thesis .
  qed
qed

lemma Split_eval1: "Split ''http://a.com,http://b.com'' (CHR '','') = [''http://a.com'', ''http://b.com'']"
  by (simp add: Split.simps)

lemma Split_eval2: "Split ''http://localhost:3000'' (CHR '','') = [''http://localhost:3000'']"
  by (simp add: Split.simps)

lemma Split_eval3: "Split [] (CHR '','') = [[]]"
  by (simp add: Split.simps)

subsection \<open>The helpers\<close>

lemma getEnv_set: "env key = Some v \<Longrightarrow> v \<noteq> [] \<Longrightarrow> getEnv env key d = v"
  by (simp add: getEnv_def Getenv_def)

lemma getEnv_unset: "env key = None \<or> env key = Some [] \<Longrightarrow> getEnv env key d = d"
  by (auto simp: getEnv_def Getenv_def)

lemma getEnv_not_Nil: "d \<noteq> [] \<Longrightarrow> getEnv env key d \<noteq> []"
  by (simp add: getEnv_def Let_def)

lemma Origins_Load:
  "Origins (App (fst (Load frac env))) =
     Split (getEnv env ''ALLOWED_ORIGINS'' ''http://localhost:3000'') (CHR '','')"
  by (simp add: Load_def)

lemma Atoi_Nil: "Atoi [] = Inl ErrSyntax"
  by (simp add: Atoi_def ParseInt_def)

lemma Atoi_notanumber: "Atoi ''notanumber'' = Inl ErrSyntax"
  by (simp add: Atoi_def Atoi_fast_def isDigit_def)

lemma Atoi_3: "Atoi ''3'' = Inr 3"
  by (simp add: Atoi_def Atoi_fast_def isDigit_def digitVal_def)

lemma ParseDuration_Nil: "ParseDuration frac [] = Inl InvalidDuration"
  by (simp add: ParseDuration_def startsWith_def)

lemma ParseDuration_48h: "ParseDuration frac ''48h'' = Inr (48 * Hour)"
  by (simp add: ParseDuration_def startsWith_def durLoop.simps parseGroup_def isDigit_def
      digitVal_def isUnitByte_def unitMap_def Hour_def Minute_def Second_def Millisecond_def
      Microsecond_def Nanosecond_def)

lemma ParseDuration_15m: "ParseDuration frac ''15m'' = Inr (15 * Minute)"
  by (simp add: ParseDuration_def startsWith_def durLoop.simps parseGroup_def isDigit_def
      digitVal_def isUnitByte_def unitMap_def Hour_def Minute_def Second_def Millisecond_def
      Microsecond_def Nanosecond_def)

lemma ParseDuration_nope: "ParseDuration frac ''nope'' = Inl InvalidDuration"
  by (simp add: ParseDuration_def startsWith_def durLoop.simps parseGroup_def isDigit_def)

lemma getEnvAsInt_parsed:
  "env key = Some v \<Longrightarrow> Atoi v = Inr n \<Longrightarrow> getEnvAsInt env key d = n"
  by (cases "v = []") (simp_all add: getEnvAsInt_def Getenv_def Atoi_Nil)

lemma getEnvAsInt_default:
  "env key = None \<or> (\<exists>v e. env key = Some v \<and> Atoi v = Inl e) \<Longrightarrow> getEnvAsInt env key d = d"
  by (auto simp: getEnvAsInt_def Getenv_def)

lemma getEnvAsDuration_parsed:
  "env key = Some v \<Longrightarrow> ParseDuration frac v = Inr n \<Longrightarrow> getEnvAsDuration frac env key d = n"
  by (cases "v = []") (simp_all add: getEnvAsDuration_def Getenv_def ParseDuration_Nil)

lemma getEnvAsDuration_default:
  "env key = None \<or> (\<exists>v e. env key = Some v \<and> ParseDuration frac v = Inl e)
     \<Longrightarrow> getEnvAsDuration frac env key d = d"
  by (auto simp: getEnvAsDuration_def Getenv_def)


lemma getEnvAsInt_unset:
  "env key = None \<or> env key = Some [] \<Longrightarrow> getEnvAsInt env key d = d"
  by (auto simp: getEnvAsInt_def Getenv_def)

lemma getEnvAsDuration_unset:
  "env key = None \<or> env key = Some [] \<Longrightarrow> getEnvAsDuration frac env key d = d"
  by (auto simp: getEnvAsDuration_def Getenv_def)

lemma getEnv_resolved: "string_field_resolved env key d (getEnv env key d)"
  unfolding string_field_resolved_def
  by (auto simp: getEnv_set getEnv_unset)

subsection \<open>\<open>Atoi\<close> parses base-10 integers\<close>

lemma digitVal_le: "isDigit c \<Longrightarrow> digitVal c \<le> 9"
  unfolding isDigit_def digitVal_def by linarith

lemma foldl_step_ge: "a \<le> foldl (\<lambda>n c. n * 10 + digitVal c) a s"
proof (induction s arbitrary: a)
  case Nil
  show ?case by simp
next
  case (Cons c s)
  have "a \<le> a * 10 + digitVal c" by simp
  also have "\<dots> \<le> foldl (\<lambda>n c. n * 10 + digitVal c) (a * 10 + digitVal c) s" by (rule Cons.IH)
  finally show ?case by simp
qed

lemma foldl_step_less:
  "list_all isDigit s \<Longrightarrow> foldl (\<lambda>n c. n * 10 + digitVal c) a s < (a + 1) * 10 ^ length s"
proof (induction s arbitrary: a)
  case Nil
  show ?case by simp
next
  case (Cons c s)
  then have d: "digitVal c \<le> 9" and r: "list_all isDigit s"
    by (simp_all add: digitVal_le)
  have "foldl (\<lambda>n c. n * 10 + digitVal c) (a * 10 + digitVal c) s
      < (a * 10 + digitVal c + 1) * 10 ^ length s"
    using r by (rule Cons.IH)
  also have "\<dots> \<le> ((a + 1) * 10) * 10 ^ length s"
    using d by (intro mult_right_mono) simp_all
  also have "\<dots> = (a + 1) * 10 ^ length (c # s)"
    by (simp add: algebra_simps)
  finally show ?case by simp
qed

lemma Atoi_fast_loop_eq:
  "Atoi_fast_loop s (int a) =
     (if list_all isDigit s then Inr (int (foldl (\<lambda>n c. n * 10 + digitVal c) a s))
      else Inl ErrSyntax)"
proof (induction s arbitrary: a)
  case Nil
  show ?case by simp
next
  case (Cons c s)
  show ?case
  proof (cases "isDigit c")
    case True
    then have "Atoi_fast_loop (c # s) (int a) = Atoi_fast_loop s (int (a * 10 + digitVal c))"
      by simp
    also have "\<dots> = (if list_all isDigit s
        then Inr (int (foldl (\<lambda>n c. n * 10 + digitVal c) (a * 10 + digitVal c) s))
        else Inl ErrSyntax)"
      by (rule Cons.IH)
    finally show ?thesis using True by simp
  next
    case False
    then show ?thesis by simp
  qed
qed

lemma ParseUint_loop_ok:
  "list_all isDigit s \<Longrightarrow> foldl (\<lambda>n c. n * 10 + digitVal c) a s \<le> maxUint64 \<Longrightarrow>
     ParseUint_loop s a = (foldl (\<lambda>n c. n * 10 + digitVal c) a s, None)"
proof (induction s arbitrary: a)
  case Nil
  show ?case by simp
next
  case (Cons c s)
  let ?n1 = "a * 10 + digitVal c"
  from Cons.prems have le: "foldl (\<lambda>n c. n * 10 + digitVal c) ?n1 s \<le> maxUint64"
    and ds: "list_all isDigit s" and dc: "isDigit c"
    by simp_all
  have n1: "?n1 \<le> maxUint64"
    using foldl_step_ge [of ?n1 s] le by linarith
  then have a: "\<not> maxUint64 div 10 + 1 \<le> a"
    by linarith
  have "ParseUint_loop (c # s) a = ParseUint_loop s ?n1"
    using a n1 dc by (simp add: Let_def)
  also have "\<dots> = (foldl (\<lambda>n c. n * 10 + digitVal c) ?n1 s, None)"
    using ds le by (rule Cons.IH)
  finally show ?case by simp
qed

lemma ParseUint_loop_range:
  "list_all isDigit s \<Longrightarrow> a \<le> maxUint64 \<Longrightarrow> maxUint64 < foldl (\<lambda>n c. n * 10 + digitVal c) a s \<Longrightarrow>
     ParseUint_loop s a = (maxUint64, Some ErrRange)"
proof (induction s arbitrary: a)
  case Nil
  then show ?case by simp
next
  case (Cons c s)
  let ?n1 = "a * 10 + digitVal c"
  from Cons.prems have gt: "maxUint64 < foldl (\<lambda>n c. n * 10 + digitVal c) ?n1 s"
    and ds: "list_all isDigit s" and dc: "isDigit c"
    by simp_all
  show ?case
  proof (cases "maxUint64 div 10 + 1 \<le> a \<or> maxUint64 < ?n1")
    case True
    with dc show ?thesis by (auto simp: Let_def)
  next
    case False
    then have "ParseUint_loop (c # s) a = ParseUint_loop s ?n1"
      using dc by (simp add: Let_def)
    also have "\<dots> = (maxUint64, Some ErrRange)"
      using ds _ gt by (rule Cons.IH) (use False in simp)
    finally show ?thesis .
  qed
qed

lemma ParseUint_loop_bad:
  "\<not> list_all isDigit s \<Longrightarrow>
     ParseUint_loop s a = (0, Some ErrSyntax) \<or> ParseUint_loop s a = (maxUint64, Some ErrRange)"
proof (induction s arbitrary: a)
  case Nil
  then show ?case by simp
next
  case (Cons c s)
  show ?case
  proof (cases "isDigit c")
    case False
    then show ?thesis by simp
  next
    case True
    with Cons.prems have ns: "\<not> list_all isDigit s" by simp
    show ?thesis
    proof (cases "maxUint64 div 10 + 1 \<le> a \<or> maxUint64 < a * 10 + digitVal c")
      case True
      with \<open>isDigit c\<close> show ?thesis by (auto simp: Let_def)
    next
      case False
      then have "ParseUint_loop (c # s) a = ParseUint_loop s (a * 10 + digitVal c)"
        using \<open>isDigit c\<close> by (simp add: Let_def)
      with Cons.IH [OF ns, of "a * 10 + digitVal c"] show ?thesis by simp
    qed
  qed
qed

lemma ParseUint_ok:
  "isNumeral b \<Longrightarrow> decimal b \<le> maxUint64 \<Longrightarrow> ParseUint b = (decimal b, None)"
  by (simp add: ParseUint_def isNumeral_def decimal_def ParseUint_loop_ok)

lemma ParseUint_range:
  "isNumeral b \<Longrightarrow> maxUint64 < decimal b \<Longrightarrow> ParseUint b = (maxUint64, Some ErrRange)"
  by (simp add: ParseUint_def isNumeral_def decimal_def ParseUint_loop_range)

lemma ParseUint_bad:
  "\<not> isNumeral b \<Longrightarrow>
     ParseUint b = (0, Some ErrSyntax) \<or> ParseUint b = (maxUint64, Some ErrRange)"
  using ParseUint_loop_bad [of b 0]
  by (auto simp: ParseUint_def isNumeral_def)

lemma ParseInt_parseDecimal: "ParseInt s = Inr n \<longleftrightarrow> parseDecimal s = Some n"
proof (cases s)
  case Nil
  then show ?thesis by (simp add: ParseInt_def parseDecimal_def)
next
  case (Cons c0 rest)
  define b where "b = (if c0 = CHR ''+'' \<or> c0 = CHR ''-'' then rest else s)"
  have pi: "ParseInt s =
      (case ParseUint b of (un, err) \<Rightarrow>
        (case (if err = Some ErrRange then None else err) of
           Some e \<Rightarrow> Inl e
         | None \<Rightarrow>
             if c0 \<noteq> CHR ''-'' \<and> un \<ge> 2 ^ 63 then Inl ErrRange
             else if c0 = CHR ''-'' \<and> un > 2 ^ 63 then Inl ErrRange
             else Inr (if c0 = CHR ''-'' then - int un else int un)))"
    by (simp only: ParseInt_def Cons b_def Let_def list.case)
  have pd: "parseDecimal s =
      (if isNumeral b \<and> (if c0 = CHR ''-'' then decimal b \<le> 2 ^ 63 else decimal b < 2 ^ 63)
       then Some (if c0 = CHR ''-'' then - int (decimal b) else int (decimal b))
       else None)"
    by (simp only: parseDecimal_def Cons b_def Let_def list.case)
  consider (ok) "isNumeral b" "decimal b \<le> maxUint64"
    | (big) "isNumeral b" "maxUint64 < decimal b"
    | (bad) "\<not> isNumeral b"
    by fastforce
  then show ?thesis
  proof cases
    case ok
    then have "ParseUint b = (decimal b, None)" by (rule ParseUint_ok)
    then show ?thesis
      unfolding pi pd using ok by (auto split: if_splits)
  next
    case big
    then have "ParseUint b = (maxUint64, Some ErrRange)" by (rule ParseUint_range)
    moreover have "(2::nat) ^ 63 < maxUint64" by (simp add: maxUint64_def)
    ultimately show ?thesis
      unfolding pi pd using big by (auto split: if_splits)
  next
    case bad
    have "(2::nat) ^ 63 < maxUint64" by (simp add: maxUint64_def)
    with ParseUint_bad [OF bad] show ?thesis
      unfolding pi pd using bad by (auto split: if_splits)
  qed
qed

lemma decimal_short:
  assumes "list_all isDigit b" and "length b < 19"
  shows "decimal b < 2 ^ 63"
proof -
  have "decimal b < 10 ^ length b"
    using foldl_step_less [OF assms(1), of 0] by (simp add: decimal_def)
  also have "(10::nat) ^ length b \<le> 10 ^ 18"
    using assms(2) by (intro power_increasing) simp_all
  also have "(10::nat) ^ 18 < 2 ^ 63"
    by simp
  finally show ?thesis .
qed

lemma Atoi_fast_parseDecimal:
  assumes "length s < 19"
  shows "Atoi_fast s = Inr n \<longleftrightarrow> parseDecimal s = Some n"
proof (cases s)
  case Nil
  then show ?thesis by (simp add: Atoi_fast_def parseDecimal_def)
next
  case (Cons c0 rest)
  define b where "b = (if c0 = CHR ''-'' \<or> c0 = CHR ''+'' then rest else s)"
  have lb: "length b < 19"
    using assms by (simp add: b_def Cons)
  have ne: "\<not> (c0 = CHR ''-'' \<or> c0 = CHR ''+'') \<Longrightarrow> b \<noteq> []"
    by (simp add: b_def Cons)
  have af: "Atoi_fast s =
      (if (c0 = CHR ''-'' \<or> c0 = CHR ''+'') \<and> length b < 1 then Inl ErrSyntax
       else (case Atoi_fast_loop b 0 of
               Inl e \<Rightarrow> Inl e
             | Inr n \<Rightarrow> Inr (if c0 = CHR ''-'' then - n else n)))"
    by (simp only: Atoi_fast_def Cons b_def Let_def list.case)
  have pd: "parseDecimal s =
      (if isNumeral b \<and> (if c0 = CHR ''-'' then decimal b \<le> 2 ^ 63 else decimal b < 2 ^ 63)
       then Some (if c0 = CHR ''-'' then - int (decimal b) else int (decimal b))
       else None)"
    by (simp only: parseDecimal_def Cons b_def Let_def list.case disj_commute)
  have loop: "Atoi_fast_loop b 0 =
      (if list_all isDigit b then Inr (int (decimal b)) else Inl ErrSyntax)"
    using Atoi_fast_loop_eq [of b 0] by (simp add: decimal_def)
  show ?thesis
  proof (cases "list_all isDigit b \<and> b \<noteq> []")
    case True
    then have "list_all isDigit b" by simp
    then have "decimal b < 2 ^ 63"
      using lb by (rule decimal_short)
    with True show ?thesis
      unfolding af pd loop by (auto simp: isNumeral_def)
  next
    case False
    with ne show ?thesis
      unfolding af pd loop by (auto simp: isNumeral_def)
  qed
qed

lemma Atoi_parseDecimal: "Atoi s = Inr n \<longleftrightarrow> parseDecimal s = Some n"
  by (simp add: Atoi_def Atoi_fast_parseDecimal ParseInt_parseDecimal)

lemma Atoi_rejects: "parseDecimal s = None \<Longrightarrow> \<exists>e. Atoi s = Inl e"
  using Atoi_parseDecimal [of s] by (cases "Atoi s") auto

lemma getEnvAsInt_decimal:
  "env key = Some v \<Longrightarrow> parseDecimal v = Some n \<Longrightarrow> getEnvAsInt env key d = n"
  by (rule getEnvAsInt_parsed) (simp_all add: Atoi_parseDecimal)

lemma getEnvAsInt_not_decimal:
  "env key = None \<or> (\<exists>v. env key = Some v \<and> parseDecimal v = None) \<Longrightarrow>
     getEnvAsInt env key d = d"
  by (rule getEnvAsInt_default) (auto dest: Atoi_rejects)

subsection \<open>\<open>ParseDuration\<close> on a magnitude and a unit\<close>

lemma unitMap_Some:
  assumes "unitMap u = Some k"
  shows "u \<noteq> []" and "list_all isUnitByte u" and "0 < k"
  using assms
  by (auto simp: unitMap_def isUnitByte_def isDigit_def Hour_def Minute_def Second_def
      Millisecond_def Microsecond_def Nanosecond_def split: if_splits)

lemma leadingInt_stop:
  "(case r of [] \<Rightarrow> True | c # _ \<Rightarrow> \<not> isDigit c) \<Longrightarrow> leadingInt r a = Inr (a, r)"
  by (cases r) simp_all

lemma leadingInt_digits:
  assumes "list_all isDigit ds"
    and "foldl (\<lambda>n c. n * 10 + digitVal c) a ds \<le> 2 ^ 63"
    and "case r of [] \<Rightarrow> True | c # _ \<Rightarrow> \<not> isDigit c"
  shows "leadingInt (ds @ r) a = Inr (foldl (\<lambda>n c. n * 10 + digitVal c) a ds, r)"
  using assms
proof (induction ds arbitrary: a)
  case Nil
  then show ?case by (simp add: leadingInt_stop)
next
  case (Cons c ds)
  let ?x = "a * 10 + digitVal c"
  from Cons.prems have le: "foldl (\<lambda>n c. n * 10 + digitVal c) ?x ds \<le> 2 ^ 63"
    and dd: "list_all isDigit ds" and dc: "isDigit c"
    by simp_all
  have x: "?x \<le> 2 ^ 63"
    using foldl_step_ge [of ?x ds] le by linarith
  then have a: "\<not> 2 ^ 63 div 10 < a"
    by simp
  have "leadingInt ((c # ds) @ r) a = leadingInt (ds @ r) ?x"
    using a x dc by (simp add: Let_def)
  also have "\<dots> = Inr (foldl (\<lambda>n c. n * 10 + digitVal c) ?x ds, r)"
    using dd le Cons.prems(3) by (rule Cons.IH)
  finally show ?case by simp
qed

lemma parseGroup_whole:
  assumes "c0 = CHR ''.'' \<or> isDigit c0"
    and "leadingInt (c0 # t) 0 = Inr (v, s1)"
    and "\<not> startsWith s1 (CHR ''.'')"
    and "length (c0 # t) \<noteq> length s1"
    and "takeWhile isUnitByte s1 \<noteq> []"
    and "unitMap (takeWhile isUnitByte s1) = Some k"
    and "\<not> 2 ^ 63 div k < v"
  shows "parseGroup frac (c0 # t) = Inr (v * k, dropWhile isUnitByte s1)"
  using assms
  by (simp add: parseGroup_def Let_def del: leadingInt.simps)

lemma parseGroup_simple:
  assumes ds: "isNumeral ds" and u: "unitMap u = Some k" and le: "decimal ds * k \<le> 2 ^ 63"
  shows "parseGroup frac (ds @ u) = Inr (decimal ds * k, [])"
proof -
  from ds obtain c0 ds' where c0: "ds = c0 # ds'" and d0: "isDigit c0"
    and dall: "list_all isDigit ds"
    by (cases ds) (auto simp: isNumeral_def)
  note un = unitMap_Some [OF u]
  from un obtain u0 u' where u0: "u = u0 # u'" and ub: "isUnitByte u0"
    by (cases u) auto
  have stop: "case u of [] \<Rightarrow> True | c # _ \<Rightarrow> \<not> isDigit c"
    using u0 ub by (simp add: isUnitByte_def)
  have "decimal ds \<le> decimal ds * k"
    using un(3) by simp
  also note le
  finally have dle: "decimal ds \<le> 2 ^ 63" .
  have li: "leadingInt (c0 # ds' @ u) 0 = Inr (decimal ds, u)"
    using leadingInt_digits [OF dall _ stop, of 0] dle by (simp add: decimal_def c0)
  have nodot: "\<not> startsWith u (CHR ''.'')"
    using u0 ub by (simp add: startsWith_def isUnitByte_def)
  have tw: "takeWhile isUnitByte u = u" and dw: "dropWhile isUnitByte u = []"
    using un(2) by (simp_all add: list_all_iff)
  have "decimal ds = decimal ds * k div k"
    using un(3) by simp
  also have "\<dots> \<le> 2 ^ 63 div k"
    using le by (rule div_le_mono)
  finally have vk: "\<not> 2 ^ 63 div k < decimal ds"
    by simp
  have "parseGroup frac (c0 # ds' @ u) = Inr (decimal ds * k, dropWhile isUnitByte u)"
    using _ li nodot
  proof (rule parseGroup_whole)
    show "c0 = CHR ''.'' \<or> isDigit c0" using d0 by simp
    show "length (c0 # ds' @ u) \<noteq> length u" by simp
    show "takeWhile isUnitByte u \<noteq> []" unfolding tw by (rule un(1))
    show "unitMap (takeWhile isUnitByte u) = Some k" unfolding tw by (rule u)
    show "\<not> 2 ^ 63 div k < decimal ds" by (rule vk)
  qed
  then show ?thesis
    by (simp add: c0 dw)
qed

lemma durLoop_Nil: "durLoop frac [] d = Inr d"
  by (simp add: durLoop.simps)

lemma ParseDuration_simple:
  assumes ds: "isNumeral ds" and u: "unitMap u = Some k" and lt: "decimal ds * k < 2 ^ 63"
  shows "ParseDuration frac (ds @ u) = Inr (int (decimal ds * k))"
proof -
  from ds obtain c0 ds' where c0: "ds = c0 # ds'" and d0: "isDigit c0"
    by (cases ds) (auto simp: isNumeral_def)
  note un = unitMap_Some [OF u]
  have nosign: "\<not> startsWith (ds @ u) (CHR ''-'')" "\<not> startsWith (ds @ u) (CHR ''+'')"
    using d0 by (auto simp: c0 startsWith_def isDigit_def)
  have nz: "ds @ u \<noteq> ''0''" and ne: "ds @ u \<noteq> []"
    using un(1) by (auto simp: c0)
  have pg: "parseGroup frac (ds @ u) = Inr (decimal ds * k, [])"
    using ds u by (rule parseGroup_simple) (use lt in simp)
  have m: "(0 + decimal ds * k) mod 2 ^ 64 = decimal ds * k"
    using lt by simp
  have n63: "\<not> 2 ^ 63 < decimal ds * k"
    using lt by simp
  have dl: "durLoop frac (ds @ u) 0 = Inr (decimal ds * k)"
    by (subst durLoop.simps)
       (simp only: pg ne if_False sum.case prod.case Let_def m n63 durLoop_Nil)
  have n63': "\<not> 2 ^ 63 - 1 < decimal ds * k"
    using lt by simp
  show ?thesis
    unfolding ParseDuration_def
    by (simp only: nosign nz ne if_False simp_thms Let_def dl sum.case n63')
qed

lemma getEnvAsDuration_simple:
  "env key = Some (ds @ u) \<Longrightarrow> isNumeral ds \<Longrightarrow> unitMap u = Some k \<Longrightarrow>
     decimal ds * k < 2 ^ 63 \<Longrightarrow>
     getEnvAsDuration frac env key d = int (decimal ds * k)"
  by (erule getEnvAsDuration_parsed) (rule ParseDuration_simple)

subsection \<open>\<open>ParseDuration\<close> accepts exactly the duration strings\<close>

lemma decimal_Nil: "decimal [] = 0"
  by (simp add: decimal_def)

lemma decimal_snoc: "decimal (pre @ [c]) = decimal pre * 10 + digitVal c"
  by (simp add: decimal_def)

lemma foldl_decimal_append:
  "foldl (\<lambda>n c. n * 10 + digitVal c) (decimal pre) ds = decimal (pre @ ds)"
  by (simp add: decimal_def)

lemma leadingInt_eq_gen:
  "decimal pre \<le> 2 ^ 63 \<Longrightarrow> leadingInt s (decimal pre) =
     (if decimal (pre @ takeWhile isDigit s) \<le> 2 ^ 63
      then Inr (decimal (pre @ takeWhile isDigit s), dropWhile isDigit s)
      else Inl InvalidDuration)"
proof (induction s arbitrary: pre)
  case Nil
  then show ?case by simp
next
  case (Cons c s)
  show ?case
  proof (cases "isDigit c")
    case False
    with Cons.prems show ?thesis by simp
  next
    case True
    let ?x = "decimal pre * 10 + digitVal c"
    have ge: "?x \<le> decimal ((pre @ [c]) @ takeWhile isDigit s)"
      using foldl_step_ge [of ?x "takeWhile isDigit s"]
      by (simp add: decimal_def)
    show ?thesis
    proof (cases "2 ^ 63 div 10 < decimal pre \<or> 2 ^ 63 < ?x")
      case bad: True
      then have "2 ^ 63 < ?x" by auto
      with ge have "\<not> decimal ((pre @ [c]) @ takeWhile isDigit s) \<le> 2 ^ 63"
        by linarith
      with bad True show ?thesis
        by (auto simp: Let_def)
    next
      case ok: False
      then have "leadingInt (c # s) (decimal pre) = leadingInt s (decimal (pre @ [c]))"
        using True by (simp add: Let_def decimal_snoc)
      also have "\<dots> =
          (if decimal ((pre @ [c]) @ takeWhile isDigit s) \<le> 2 ^ 63
           then Inr (decimal ((pre @ [c]) @ takeWhile isDigit s), dropWhile isDigit s)
           else Inl InvalidDuration)"
        using ok by (intro Cons.IH) (simp add: decimal_snoc)
      finally show ?thesis using True by simp
    qed
  qed
qed

lemma leadingInt_eq:
  "leadingInt s 0 =
     (if decimal (takeWhile isDigit s) \<le> 2 ^ 63
      then Inr (decimal (takeWhile isDigit s), dropWhile isDigit s)
      else Inl InvalidDuration)"
  using leadingInt_eq_gen [of "[]" s] by (simp add: decimal_Nil)

lemma decimal_append_ge: "decimal pre \<le> decimal (pre @ ds)"
  using foldl_step_ge [of "decimal pre" ds] by (simp add: decimal_def)

lemma leadingFraction_overflow:
  "leadingFraction s x sc True = (x, sc, dropWhile isDigit s)"
  by (induction s) simp_all

lemma leadingFraction_eq_gen:
  "decimal pre \<le> 2 ^ 63 \<Longrightarrow>
   leadingFraction s (decimal pre) (10 ^ length pre) False =
     (decimal (keepFitting pre (takeWhile isDigit s)),
      10 ^ length (keepFitting pre (takeWhile isDigit s)),
      dropWhile isDigit s)"
proof (induction s arbitrary: pre)
  case Nil
  show ?case by simp
next
  case (Cons c s)
  show ?case
  proof (cases "isDigit c")
    case False
    then show ?thesis by simp
  next
    case True
    let ?y = "decimal pre * 10 + digitVal c"
    show ?thesis
    proof (cases "decimal (pre @ [c]) \<le> 2 ^ 63")
      case fits: True
      then have y: "?y \<le> 2 ^ 63" by (simp add: decimal_snoc)
      then have "decimal pre * 10 \<le> 2 ^ 63" by linarith
      then have x: "\<not> (2 ^ 63 - 1) div 10 < decimal pre" by simp
      have "leadingFraction (c # s) (decimal pre) (10 ^ length pre) False =
          leadingFraction s (decimal (pre @ [c])) (10 ^ length (pre @ [c])) False"
        using True x y by (simp add: Let_def decimal_snoc mult.commute)
      also have "\<dots> =
          (decimal (keepFitting (pre @ [c]) (takeWhile isDigit s)),
           10 ^ length (keepFitting (pre @ [c]) (takeWhile isDigit s)),
           dropWhile isDigit s)"
        using fits by (rule Cons.IH)
      finally show ?thesis using True fits by simp
    next
      case over: False
      then have y: "2 ^ 63 < ?y" by (simp add: decimal_snoc)
      have "leadingFraction (c # s) (decimal pre) (10 ^ length pre) False =
          leadingFraction s (decimal pre) (10 ^ length pre) True"
        using True y by (simp add: Let_def)
      then show ?thesis
        using True over by (simp add: leadingFraction_overflow)
    qed
  qed
qed

lemma leadingFraction_eq:
  "leadingFraction s 0 1 False =
     (decimal (usedFraction (takeWhile isDigit s)),
      10 ^ length (usedFraction (takeWhile isDigit s)),
      dropWhile isDigit s)"
  using leadingFraction_eq_gen [of "[]" s] by (simp add: decimal_Nil usedFraction_def)

lemma length_dropWhile_neq:
  "(length s \<noteq> length (dropWhile P s)) = (takeWhile P s \<noteq> [])"
proof -
  have "length (takeWhile P s) + length (dropWhile P s) = length s"
    by (metis length_append takeWhile_dropWhile_id)
  then show ?thesis
    by (cases "takeWhile P s") auto
qed

lemma parseGroup_Cons:
  "parseGroup frac (c0 # t) =
     (if \<not> (c0 = CHR ''.'' \<or> isDigit c0) then Inl InvalidDuration
      else (case leadingInt (c0 # t) 0 of
        Inl e \<Rightarrow> Inl InvalidDuration
      | Inr (v, s1) \<Rightarrow>
          let pre = (length (c0 # t) \<noteq> length s1);
              (f, scale, s2) =
                 (if startsWith s1 (CHR ''.'')
                  then leadingFraction (tl s1) 0 1 False else (0, 1, s1));
              post = (startsWith s1 (CHR ''.'') \<and> length (tl s1) \<noteq> length s2)
          in if \<not> pre \<and> \<not> post then Inl InvalidDuration
             else
               let u = takeWhile isUnitByte s2;
                   s3 = dropWhile isUnitByte s2
               in if u = [] then Inl MissingUnit
                  else (case unitMap u of
                    None \<Rightarrow> Inl (UnknownUnit u)
                  | Some unit \<Rightarrow>
                      if v > 2 ^ 63 div unit then Inl InvalidDuration
                      else
                        let v1 = v * unit;
                            v2 = (if f > 0 then (v1 + frac f unit scale mod 2 ^ 64) mod 2 ^ 64
                                  else v1)
                        in if f > 0 \<and> v2 > 2 ^ 63 then Inl InvalidDuration
                           else Inr (v2, s3))))"
  by (simp only: parseGroup_def list.case)

lemma parseGroup_after:
  assumes "c0 = CHR ''.'' \<or> isDigit c0"
    and "leadingInt (c0 # t) 0 = Inr (v, s1)"
    and "(if startsWith s1 (CHR ''.'') then leadingFraction (tl s1) 0 1 False else (0, 1, s1))
          = (f, scale, s2)"
    and "(length (c0 # t) \<noteq> length s1) = a"
    and "(startsWith s1 (CHR ''.'') \<and> length (tl s1) \<noteq> length s2) = b"
  shows "parseGroup frac (c0 # t) =
     (if \<not> a \<and> \<not> b then Inl InvalidDuration
      else if takeWhile isUnitByte s2 = [] then Inl MissingUnit
      else (case unitMap (takeWhile isUnitByte s2) of
              None \<Rightarrow> Inl (UnknownUnit (takeWhile isUnitByte s2))
            | Some k \<Rightarrow>
                if v > 2 ^ 63 div k then Inl InvalidDuration
                else if f > 0 \<and> (v * k + frac f k scale mod 2 ^ 64) mod 2 ^ 64 > 2 ^ 63
                     then Inl InvalidDuration
                     else Inr (if f > 0 then (v * k + frac f k scale mod 2 ^ 64) mod 2 ^ 64
                               else v * k,
                               dropWhile isUnitByte s2)))"
proof -
  from assms(4) have a': "(length (c0 # t) = length s1) = (\<not> a)"
    by auto
  have "parseGroup frac (c0 # t) =
      (if \<not> a \<and> \<not> b then Inl InvalidDuration
       else if takeWhile isUnitByte s2 = [] then Inl MissingUnit
       else (case unitMap (takeWhile isUnitByte s2) of
               None \<Rightarrow> Inl (UnknownUnit (takeWhile isUnitByte s2))
             | Some unit \<Rightarrow>
                 if v > 2 ^ 63 div unit then Inl InvalidDuration
                 else if f > 0 \<and> (if f > 0 then (v * unit + frac f unit scale mod 2 ^ 64) mod 2 ^ 64
                                 else v * unit) > 2 ^ 63
                      then Inl InvalidDuration
                      else Inr (if f > 0 then (v * unit + frac f unit scale mod 2 ^ 64) mod 2 ^ 64
                                else v * unit,
                                dropWhile isUnitByte s2)))"
    by (simp only: parseGroup_Cons assms(1,2,3,5) a' not_not not_True_eq_False if_False if_True
        sum.case prod.case Let_def)
  also have "\<dots> =
     (if \<not> a \<and> \<not> b then Inl InvalidDuration
      else if takeWhile isUnitByte s2 = [] then Inl MissingUnit
      else (case unitMap (takeWhile isUnitByte s2) of
              None \<Rightarrow> Inl (UnknownUnit (takeWhile isUnitByte s2))
            | Some k \<Rightarrow>
                if v > 2 ^ 63 div k then Inl InvalidDuration
                else if f > 0 \<and> (v * k + frac f k scale mod 2 ^ 64) mod 2 ^ 64 > 2 ^ 63
                     then Inl InvalidDuration
                     else Inr (if f > 0 then (v * k + frac f k scale mod 2 ^ 64) mod 2 ^ 64
                               else v * k,
                               dropWhile isUnitByte s2)))"
    by (cases "f > 0") (simp_all only: if_True if_False simp_thms)
  finally show ?thesis .
qed

lemma parseGroup_iff:
  "parseGroup frac s = Inr (v, r) \<longleftrightarrow>
     (\<exists>g. splitGroup s = Some (g, r) \<and> groupValue frac g = Some v)"
proof (cases s)
  case Nil
  then show ?thesis
    by (simp add: parseGroup_def splitGroup_def startsWith_def)
next
  case (Cons c0 t)
  define ds where "ds = takeWhile isDigit s"
  define s1 where "s1 = dropWhile isDigit s"
  define dot where "dot = startsWith s1 (CHR ''.'')"
  define fs where "fs = takeWhile isDigit (tl s1)"
  define s2 where "s2 = (if dot then dropWhile isDigit (tl s1) else s1)"
  define p where "p = (if dot then usedFraction fs else [])"
  define u where "u = takeWhile isUnitByte s2"
  have sg: "splitGroup s =
      (if ds = [] \<and> (\<not> dot \<or> fs = []) then None
       else if u = [] then None
       else Some (DGroup ds (if dot then Some fs else None) u, dropWhile isUnitByte s2))"
    by (simp add: splitGroup_def Let_def ds_def s1_def dot_def fs_def s2_def u_def)
  have fc: "(c0 = CHR ''.'' \<or> isDigit c0) \<longleftrightarrow> \<not> (ds = [] \<and> \<not> dot)"
    by (auto simp: Cons ds_def s1_def dot_def startsWith_def isDigit_def)
  show ?thesis
  proof (cases "ds = [] \<and> \<not> dot")
    case True
    with fc have "parseGroup frac s = Inl InvalidDuration"
      by (simp add: Cons parseGroup_Cons)
    with True show ?thesis by (simp add: sg)
  next
    case first: False
    show ?thesis
    proof (cases "decimal ds \<le> 2 ^ 63")
      case False
      then have "leadingInt s 0 = Inl InvalidDuration"
        by (simp add: leadingInt_eq ds_def)
      then have "parseGroup frac s = Inl InvalidDuration"
        using first fc by (simp add: Cons parseGroup_Cons)
      moreover have "groupValue frac (DGroup ds fo u') = None" for fo u'
      proof (cases "unitMap u'")
        case None
        then show ?thesis by (simp add: groupValue_def)
      next
        case (Some k)
        have "2 ^ 63 div k \<le> (2::nat) ^ 63" by (rule div_le_dividend)
        with False have "2 ^ 63 div k < decimal ds" by linarith
        with Some show ?thesis by (simp add: groupValue_def)
      qed
      ultimately show ?thesis by (auto simp: sg split: if_splits)
    next
      case True
      then have li: "leadingInt (c0 # t) 0 = Inr (decimal ds, s1)"
        by (simp add: leadingInt_eq ds_def s1_def Cons [symmetric])
      have pre: "(length (c0 # t) \<noteq> length s1) = (ds \<noteq> [])"
        unfolding Cons [symmetric] s1_def ds_def by (rule length_dropWhile_neq)
      have lf: "leadingFraction (tl s1) 0 1 False =
          (decimal (usedFraction fs), 10 ^ length (usedFraction fs), dropWhile isDigit (tl s1))"
        unfolding fs_def by (rule leadingFraction_eq)
      have post: "(length (tl s1) \<noteq> length (dropWhile isDigit (tl s1))) = (fs \<noteq> [])"
        unfolding fs_def by (rule length_dropWhile_neq)
      have pg: "parseGroup frac s =
          (if ds = [] \<and> \<not> (dot \<and> fs \<noteq> []) then Inl InvalidDuration
           else if u = [] then Inl MissingUnit
           else (case unitMap u of
                   None \<Rightarrow> Inl (UnknownUnit u)
                 | Some k \<Rightarrow>
                     if decimal ds > 2 ^ 63 div k then Inl InvalidDuration
                     else if decimal p > 0
                            \<and> (decimal ds * k + frac (decimal p) k (10 ^ length p) mod 2 ^ 64)
                                 mod 2 ^ 64 > 2 ^ 63
                          then Inl InvalidDuration
                          else Inr (if decimal p > 0
                                    then (decimal ds * k
                                          + frac (decimal p) k (10 ^ length p) mod 2 ^ 64) mod 2 ^ 64
                                    else decimal ds * k,
                                    dropWhile isUnitByte s2)))"
      proof -
        have fr: "(if startsWith s1 (CHR ''.'') then leadingFraction (tl s1) 0 1 False
                   else (0, 1, s1)) = (decimal p, 10 ^ length p, s2)"
          by (simp add: dot_def [symmetric] lf p_def s2_def decimal_Nil del: One_nat_def)
        have po: "(startsWith s1 (CHR ''.'') \<and> length (tl s1) \<noteq> length s2) =
            (dot \<and> fs \<noteq> [])"
          using post by (auto simp: dot_def [symmetric] s2_def)
        have fc': "c0 = CHR ''.'' \<or> isDigit c0"
          using first fc by simp
        have "\<not> (ds \<noteq> []) \<and> \<not> (dot \<and> fs \<noteq> []) \<longleftrightarrow> ds = [] \<and> \<not> (dot \<and> fs \<noteq> [])"
          by simp
        then show ?thesis
          unfolding Cons parseGroup_after [OF fc' li fr pre po] u_def [symmetric]
          by (simp only:)
      qed
      show ?thesis
        unfolding pg sg
        by (auto simp: groupValue_def Let_def p_def decimal_Nil usedFraction_def
            split: option.splits if_splits)
    qed
  qed
qed

lemma splitGroups_Nil: "splitGroups [] = Some []"
  by (simp add: splitGroups.simps)

lemma splitGroups_Some:
  assumes "s \<noteq> []"
  shows "splitGroups s = Some gs \<longleftrightarrow>
     (\<exists>g r gs'. splitGroup s = Some (g, r) \<and> splitGroups r = Some gs' \<and> gs = g # gs')"
  using assms
  by (subst splitGroups.simps) (auto split: option.splits)

lemma sumGroups_Cons_Some:
  "sumGroups frac (g # gs) d = Some d' \<longleftrightarrow>
     (\<exists>v. groupValue frac g = Some v \<and> \<not> 2 ^ 63 < (d + v) mod 2 ^ 64
        \<and> sumGroups frac gs ((d + v) mod 2 ^ 64) = Some d')"
  by (auto simp: Let_def split: option.splits)

lemma durLoop_Inr:
  assumes "s \<noteq> []"
  shows "durLoop frac s d = Inr d' \<longleftrightarrow>
     (\<exists>v r. parseGroup frac s = Inr (v, r) \<and> \<not> 2 ^ 63 < (d + v) mod 2 ^ 64
        \<and> durLoop frac r ((d + v) mod 2 ^ 64) = Inr d')"
  using assms
  by (subst durLoop.simps) (auto simp: Let_def split: sum.splits)

lemma durLoop_iff:
  "durLoop frac s d = Inr d' \<longleftrightarrow>
     (\<exists>gs. splitGroups s = Some gs \<and> sumGroups frac gs d = Some d')"
proof (induction frac s d rule: durLoop.induct)
  case (1 frac s d)
  show ?case
  proof (cases "s = []")
    case True
    then show ?thesis
      by (auto simp: durLoop_Nil splitGroups_Nil)
  next
    case False
    have IH: "durLoop frac r ((d + v) mod 2 ^ 64) = Inr d' \<longleftrightarrow>
        (\<exists>gs. splitGroups r = Some gs \<and> sumGroups frac gs ((d + v) mod 2 ^ 64) = Some d')"
      if "parseGroup frac s = Inr (v, r)" and "\<not> 2 ^ 63 < (d + v) mod 2 ^ 64" for v r
      using "1.IH" [OF False that(1) refl refl that(2)] .
    show ?thesis
    proof
      assume "durLoop frac s d = Inr d'"
      then obtain v r where pg: "parseGroup frac s = Inr (v, r)"
        and ok: "\<not> 2 ^ 63 < (d + v) mod 2 ^ 64"
        and dl: "durLoop frac r ((d + v) mod 2 ^ 64) = Inr d'"
        using durLoop_Inr [OF False] by blast
      from pg obtain g where sg: "splitGroup s = Some (g, r)" and gv: "groupValue frac g = Some v"
        using parseGroup_iff by blast
      from IH [OF pg ok] dl obtain gs' where sgs: "splitGroups r = Some gs'"
        and tt: "sumGroups frac gs' ((d + v) mod 2 ^ 64) = Some d'"
        by blast
      have "splitGroups s = Some (g # gs')"
        using sg sgs by (simp add: splitGroups_Some [OF False])
      moreover have "sumGroups frac (g # gs') d = Some d'"
        using gv ok tt by (simp add: sumGroups_Cons_Some)
      ultimately show "\<exists>gs. splitGroups s = Some gs \<and> sumGroups frac gs d = Some d'"
        by blast
    next
      assume "\<exists>gs. splitGroups s = Some gs \<and> sumGroups frac gs d = Some d'"
      then obtain gs where sgs: "splitGroups s = Some gs" and tt: "sumGroups frac gs d = Some d'"
        by blast
      from sgs obtain g r gs' where sg: "splitGroup s = Some (g, r)"
        and sr: "splitGroups r = Some gs'" and gs: "gs = g # gs'"
        using splitGroups_Some [OF False] by blast
      from tt obtain v where gv: "groupValue frac g = Some v"
        and ok: "\<not> 2 ^ 63 < (d + v) mod 2 ^ 64"
        and tr: "sumGroups frac gs' ((d + v) mod 2 ^ 64) = Some d'"
        unfolding gs sumGroups_Cons_Some by blast
      have pg: "parseGroup frac s = Inr (v, r)"
        using sg gv parseGroup_iff by blast
      have "durLoop frac r ((d + v) mod 2 ^ 64) = Inr d'"
        using IH [OF pg ok] sr tr by blast
      with pg ok show "durLoop frac s d = Inr d'"
        using durLoop_Inr [OF False] by blast
    qed
  qed
qed

lemma ParseDuration_durationValue:
  "ParseDuration frac s = Inr x \<longleftrightarrow> durationValue frac s = Some x"
proof -
  define body where
    "body = (if startsWith s (CHR ''-'') \<or> startsWith s (CHR ''+'') then tl s else s)"
  have pd: "ParseDuration frac s =
      (if body = ''0'' then Inr 0
       else if body = [] then Inl InvalidDuration
       else (case durLoop frac body 0 of
               Inl e \<Rightarrow> Inl e
             | Inr d \<Rightarrow>
                 if startsWith s (CHR ''-'') then Inr (- int d)
                 else if d > 2 ^ 63 - 1 then Inl InvalidDuration
                 else Inr (int d)))"
    by (simp only: ParseDuration_def Let_def body_def)
  have dv: "durationValue frac s =
      (if body = ''0'' then Some 0
       else if body = [] then None
       else (case splitGroups body of
               None \<Rightarrow> None
             | Some gs \<Rightarrow>
                 (case sumGroups frac gs 0 of
                    None \<Rightarrow> None
                  | Some d \<Rightarrow>
                      if startsWith s (CHR ''-'') then Some (- int d)
                      else if d > 2 ^ 63 - 1 then None
                      else Some (int d))))"
    by (simp only: durationValue_def Let_def body_def)
  show ?thesis
  proof (cases "durLoop frac body 0")
    case (Inl e)
    then have "sumGroups frac gs 0 \<noteq> Some d" if "splitGroups body = Some gs" for gs d
      using that durLoop_iff [of frac body 0 d] by auto
    then have "sumGroups frac gs 0 = None" if "splitGroups body = Some gs" for gs
      using that by (cases "sumGroups frac gs 0") auto
    with Inl show ?thesis
      unfolding pd dv by (auto split: option.splits)
  next
    case (Inr d)
    then obtain gs where "splitGroups body = Some gs" "sumGroups frac gs 0 = Some d"
      using durLoop_iff [of frac body 0 d] by blast
    with Inr show ?thesis
      unfolding pd dv by (auto split: option.splits)
  qed
qed

lemma ParseDuration_rejects:
  "durationValue frac s = None \<Longrightarrow> \<exists>e. ParseDuration frac s = Inl e"
  using ParseDuration_durationValue [of frac s] by (cases "ParseDuration frac s") auto

subsection \<open>Strings written from groups\<close>

lemma takeWhile_all: "list_all P xs \<Longrightarrow> (case ys of [] \<Rightarrow> True | y # _ \<Rightarrow> \<not> P y) \<Longrightarrow>
    takeWhile P (xs @ ys) = xs \<and> dropWhile P (xs @ ys) = ys"
  by (cases ys) (auto simp: list_all_iff takeWhile_append2 dropWhile_append2)

lemma not_isDigit_dot: "\<not> isDigit (CHR ''.'')"
  by (simp add: isDigit_def)

lemma splitGroup_render:
  assumes wf: "wellFormed g" and rest: "startsGroup rest"
  shows "splitGroup (render g @ rest) = Some (g, rest)"
proof -
  obtain ds fo u where g: "g = DGroup ds fo u" by (cases g)
  from wf obtain k where k: "unitMap u = Some k" and dd: "list_all isDigit ds"
    by (auto simp: wellFormed_def g)
  note un = unitMap_Some [OF k]
  from un obtain u0 u' where u0: "u = u0 # u'" and ub0: "isUnitByte u0"
    by (cases u) auto
  have nd0: "\<not> isDigit u0"
    using ub0 by (simp add: isUnitByte_def)
  have urest: "takeWhile isUnitByte (u @ rest) = u \<and> dropWhile isUnitByte (u @ rest) = rest"
    using un(2) rest
    by (intro takeWhile_all) (auto simp: startsGroup_def isUnitByte_def split: list.splits)
  have nodot_u: "\<not> startsWith (u @ rest) (CHR ''.'')"
    using ub0 by (simp add: u0 startsWith_def isUnitByte_def)
  show ?thesis
  proof (cases fo)
    case None
    with wf have ne: "ds \<noteq> []" by (simp add: wellFormed_def g)
    have td: "takeWhile isDigit (ds @ u @ rest) = ds \<and> dropWhile isDigit (ds @ u @ rest) = u @ rest"
      using dd by (intro takeWhile_all) (simp_all add: u0 nd0)
    show ?thesis
      using ne un(1) by (simp add: splitGroup_def g None td nodot_u urest Let_def)
  next
    case (Some fs)
    with wf have df: "list_all isDigit fs" and ne: "ds \<noteq> [] \<or> fs \<noteq> []"
      by (simp_all add: wellFormed_def g)
    have td: "takeWhile isDigit (ds @ CHR ''.'' # fs @ u @ rest) = ds
        \<and> dropWhile isDigit (ds @ CHR ''.'' # fs @ u @ rest) = CHR ''.'' # fs @ u @ rest"
      using dd by (intro takeWhile_all) (simp_all add: not_isDigit_dot)
    have tf: "takeWhile isDigit (fs @ u @ rest) = fs
        \<and> dropWhile isDigit (fs @ u @ rest) = u @ rest"
      using df by (intro takeWhile_all) (simp_all add: u0 nd0)
    show ?thesis
      using ne un(1)
      by (auto simp: splitGroup_def g Some td tf urest Let_def startsWith_def)
  qed
qed

lemma render_startsGroup:
  assumes "wellFormed g"
  shows "startsGroup (render g @ rest)"
proof -
  obtain ds fo u where g: "g = DGroup ds fo u" by (cases g)
  show ?thesis
  proof (cases ds)
    case Nil
    with assms obtain fs where "fo = Some fs"
      by (cases fo) (auto simp: wellFormed_def g)
    with Nil show ?thesis by (simp add: g startsGroup_def)
  next
    case (Cons d ds')
    with assms have "isDigit d" by (simp add: wellFormed_def g)
    with Cons show ?thesis by (simp add: g startsGroup_def)
  qed
qed

lemma render_not_Nil: "wellFormed g \<Longrightarrow> render g \<noteq> []"
  by (cases g) (auto simp: wellFormed_def split: option.splits)

lemma concat_render_startsGroup:
  "list_all wellFormed gs \<Longrightarrow> startsGroup (concat (map render gs))"
  by (cases gs) (simp_all add: startsGroup_def render_startsGroup [unfolded startsGroup_def])

lemma splitGroups_render:
  "list_all wellFormed gs \<Longrightarrow> splitGroups (concat (map render gs)) = Some gs"
proof (induction gs)
  case Nil
  show ?case by (simp add: splitGroups_Nil)
next
  case (Cons g gs)
  then have wf: "wellFormed g" and wfs: "list_all wellFormed gs"
    by simp_all
  have ne: "render g @ concat (map render gs) \<noteq> []"
    using render_not_Nil [OF wf] by simp
  have "splitGroup (render g @ concat (map render gs)) = Some (g, concat (map render gs))"
    using wf concat_render_startsGroup [OF wfs] by (rule splitGroup_render)
  with Cons.IH [OF wfs] show ?case
    using ne by (simp add: splitGroups_Some)
qed

lemma render_length: 
  assumes "wellFormed g"
  shows "2 \<le> length (render g)"
proof -
  obtain ds fo u where g: "g = DGroup ds fo u" by (cases g)
  from assms obtain k where "unitMap u = Some k"
    by (auto simp: wellFormed_def g)
  then have "u \<noteq> []" by (rule unitMap_Some)
  then have "1 \<le> length u" by (cases u) simp_all
  moreover have "1 \<le> length (ds @ (case fo of None \<Rightarrow> [] | Some fs \<Rightarrow> CHR ''.'' # fs))"
    using assms by (cases fo; cases ds) (simp_all add: wellFormed_def g)
  ultimately show ?thesis by (simp add: g)
qed

lemma durationValue_groups:
  assumes sign: "sign = [] \<or> sign = ''+'' \<or> sign = ''-''"
    and ne: "gs \<noteq> []" and wf: "list_all wellFormed gs"
  shows "durationValue frac (sign @ concat (map render gs)) =
     (case sumGroups frac gs 0 of
        None \<Rightarrow> None
      | Some d \<Rightarrow>
          if sign = ''-'' then Some (- int d)
          else if d > 2 ^ 63 - 1 then None
          else Some (int d))"
proof -
  define body where "body = concat (map render gs)"
  from ne obtain g gs' where gs: "gs = g # gs'" by (cases gs) auto
  with wf have wg: "wellFormed g" by simp
  have len: "2 \<le> length body"
    using render_length [OF wg] by (simp add: body_def gs)
  then have b0: "body \<noteq> ''0''" and bne: "body \<noteq> []"
    by auto
  have sg: "startsGroup body"
    unfolding body_def using wf by (rule concat_render_startsGroup)
  have nosign: "\<not> startsWith body (CHR ''-'')" "\<not> startsWith body (CHR ''+'')"
    using sg bne by (auto simp: startsGroup_def startsWith_def isDigit_def split: list.splits)
  have sp: "splitGroups body = Some gs"
    unfolding body_def using wf by (rule splitGroups_render)
  from sign show ?thesis
  proof (elim disjE)
    assume "sign = []"
    then show ?thesis
      using nosign b0 bne
      by (simp add: durationValue_def Let_def body_def [symmetric] sp split: option.split)
  next
    assume "sign = ''+''"
    then show ?thesis
      using b0 bne
      by (simp add: durationValue_def Let_def body_def [symmetric] sp startsWith_def
          split: option.split)
  next
    assume "sign = ''-''"
    then show ?thesis
      using b0 bne
      by (simp add: durationValue_def Let_def body_def [symmetric] sp startsWith_def
          split: option.split)
  qed
qed

lemma keepFitting_short:
  "list_all isDigit fs \<Longrightarrow> list_all isDigit pre \<Longrightarrow> length pre + length fs \<le> 18 \<Longrightarrow>
     keepFitting pre fs = pre @ fs"
proof (induction fs arbitrary: pre)
  case Nil
  show ?case by simp
next
  case (Cons c fs)
  have "list_all isDigit (pre @ [c])" and "length (pre @ [c]) < 19"
    using Cons.prems by simp_all
  then have "decimal (pre @ [c]) < 2 ^ 63"
    by (rule decimal_short)
  moreover have "keepFitting (pre @ [c]) fs = (pre @ [c]) @ fs"
    using Cons.prems by (intro Cons.IH) simp_all
  ultimately show ?case by simp
qed

lemma usedFraction_short:
  "list_all isDigit fs \<Longrightarrow> length fs \<le> 18 \<Longrightarrow> usedFraction fs = fs"
  using keepFitting_short [of fs "[]"] by (simp add: usedFraction_def)

lemma ParseDuration_1h30m: "ParseDuration frac ''1h30m'' = Inr 5400000000000"
  by (simp add: ParseDuration_def startsWith_def durLoop.simps parseGroup_def isDigit_def
      digitVal_def isUnitByte_def unitMap_def Hour_def Minute_def Second_def Millisecond_def
      Microsecond_def Nanosecond_def)

lemma ParseDuration_minus_30m: "ParseDuration frac ''-30m'' = Inr (- 1800000000000)"
  by (simp add: ParseDuration_def startsWith_def durLoop.simps parseGroup_def isDigit_def
      digitVal_def isUnitByte_def unitMap_def Hour_def Minute_def Second_def Millisecond_def
      Microsecond_def Nanosecond_def)

lemma ParseDuration_1_5h:
  "frac 5 3600000000000 10 = 1800000000000 \<Longrightarrow>
     ParseDuration frac ''1.5h'' = Inr 5400000000000"
  by (simp add: ParseDuration_def startsWith_def durLoop.simps parseGroup_def isDigit_def
      digitVal_def isUnitByte_def unitMap_def Hour_def Minute_def Second_def Millisecond_def
      Microsecond_def Nanosecond_def Let_def)

lemma ParseDuration_missing_unit: "ParseDuration frac ''10'' = Inl MissingUnit"
  by (simp add: ParseDuration_def startsWith_def durLoop.simps parseGroup_def isDigit_def
      digitVal_def isUnitByte_def)

lemma getEnvAsDuration_value:
  "env key = Some v \<Longrightarrow> durationValue frac v = Some d \<Longrightarrow>
     getEnvAsDuration frac env key dflt = d"
  by (erule getEnvAsDuration_parsed) (simp add: ParseDuration_durationValue)

lemma getEnvAsDuration_no_value:
  "env key = None \<or> (\<exists>v. env key = Some v \<and> durationValue frac v = None) \<Longrightarrow>
     getEnvAsDuration frac env key dflt = dflt"
  by (rule getEnvAsDuration_default) (auto dest: ParseDuration_rejects)

lemma ParseDuration_1_5h_frac:
  "ParseDuration frac ''1.5h'' =
     (let v = (3600000000000 + frac 5 3600000000000 10 mod 2 ^ 64) mod 2 ^ 64
      in if v < 2 ^ 63 then Inr (int v) else Inl InvalidDuration)"
  by (simp add: ParseDuration_def startsWith_def durLoop.simps parseGroup_def isDigit_def
      digitVal_def isUnitByte_def unitMap_def Hour_def Minute_def Second_def Millisecond_def
      Microsecond_def Nanosecond_def Let_def)

section \<open>The claims about \<open>Load\<close>\<close>



text \<open>
  Claim C2. When every variable that \<open>Load\<close> consults is unset or empty, the
  configuration returned is exactly the default table: every string field is its default
  literal, \<open>MaxConnections\<close> is 25, \<open>MaxIdleTime\<close> is 15 minutes, \<open>ExpiresIn\<close> is 24
  hours, the Redis \<open>DB\<close> is 0 and \<open>Origins\<close> is the single default origin; the error
  is nil.
\<close>

theorem Load_defaults:
  assumes "\<forall>k \<in> set consulted. env k = None \<or> env k = Some []"
  shows "Load frac env = (spec_defaults, None)"
proof -
  have u: "\<And>k. k \<in> set consulted \<Longrightarrow> env k = None \<or> env k = Some []"
    using assms by blast
  have s: "\<And>k d. k \<in> set consulted \<Longrightarrow> getEnv env k d = d"
    by (rule getEnv_unset) (rule u)
  have i: "\<And>k d. k \<in> set consulted \<Longrightarrow> getEnvAsInt env k d = d"
    by (rule getEnvAsInt_unset) (rule u)
  have t: "\<And>k d. k \<in> set consulted \<Longrightarrow> getEnvAsDuration frac env k d = d"
    by (rule getEnvAsDuration_unset) (rule u)
  show ?thesis
    unfolding Load_def spec_defaults_def
    by (simp add: s i t consulted_def Split_eval2 Hour_def Minute_def Second_def
        Millisecond_def Microsecond_def Nanosecond_def)
qed

theorem Load_defaults_witness:
  "Load exactFrac Map.empty = (spec_defaults, None)
   \<and> Load exactFrac (Map.empty(''HOST'' \<mapsto> [], ''REDIS_DB'' \<mapsto> [])) = (spec_defaults, None)"
proof -
  have "\<forall>k \<in> set consulted. (Map.empty :: environ) k = None \<or> (Map.empty :: environ) k = Some []"
    by simp
  moreover have "\<forall>k \<in> set consulted.
      (Map.empty(''HOST'' \<mapsto> [], ''REDIS_DB'' \<mapsto> [])) k = None
      \<or> (Map.empty(''HOST'' \<mapsto> [], ''REDIS_DB'' \<mapsto> [])) k = Some []"
    by simp
  ultimately show ?thesis
    using Load_defaults [of Map.empty exactFrac]
      Load_defaults [of "Map.empty(''HOST'' \<mapsto> [], ''REDIS_DB'' \<mapsto> [])" exactFrac]
    by blast
qed

text \<open>
  Claim C3. For the two integer fields (\<open>DB_MAX_CONNECTIONS\<close>, \<open>REDIS_DB\<close>): when the
  variable holds a string that parses as a base-10 integer, the field is that integer;
  when the variable is missing or its value does not parse, the field is the default (25
  and 0). In particular \<open>DB_MAX_CONNECTIONS=notanumber\<close> gives 25, neither an error nor
  zero, and \<open>REDIS_DB=3\<close> gives 3. Parsing is what \<open>Atoi\<close> does, and \<open>Atoi\<close> accepts
  exactly the strings that \<open>parseDecimal\<close> describes, with the same value.
\<close>

theorem int_fields_resolved:
  "(\<forall>v n. env ''DB_MAX_CONNECTIONS'' = Some v \<and> parseDecimal v = Some n \<longrightarrow>
      MaxConnections (Database (fst (Load frac env))) = n)
   \<and> (env ''DB_MAX_CONNECTIONS'' = None
        \<or> (\<exists>v. env ''DB_MAX_CONNECTIONS'' = Some v \<and> parseDecimal v = None) \<longrightarrow>
      MaxConnections (Database (fst (Load frac env))) = 25)
   \<and> (\<forall>v n. env ''REDIS_DB'' = Some v \<and> parseDecimal v = Some n \<longrightarrow>
      DB (Redis (fst (Load frac env))) = n)
   \<and> (env ''REDIS_DB'' = None
        \<or> (\<exists>v. env ''REDIS_DB'' = Some v \<and> parseDecimal v = None) \<longrightarrow>
      DB (Redis (fst (Load frac env))) = 0)
   \<and> (env ''DB_MAX_CONNECTIONS'' = Some ''notanumber'' \<longrightarrow>
      MaxConnections (Database (fst (Load frac env))) = 25)
   \<and> (env ''REDIS_DB'' = Some ''3'' \<longrightarrow> DB (Redis (fst (Load frac env))) = 3)
   \<and> (\<forall>s n. Atoi s = Inr n \<longleftrightarrow> parseDecimal s = Some n)"
proof -
  have m: "MaxConnections (Database (fst (Load frac env))) =
      getEnvAsInt env ''DB_MAX_CONNECTIONS'' 25"
    by (simp add: Load_def)
  have r: "DB (Redis (fst (Load frac env))) = getEnvAsInt env ''REDIS_DB'' 0"
    by (simp add: Load_def)
  have "env ''DB_MAX_CONNECTIONS'' = Some ''notanumber'' \<longrightarrow>
      getEnvAsInt env ''DB_MAX_CONNECTIONS'' 25 = 25"
    using Atoi_notanumber by (auto intro!: getEnvAsInt_default)
  moreover have "env ''REDIS_DB'' = Some ''3'' \<longrightarrow> getEnvAsInt env ''REDIS_DB'' 0 = 3"
    using Atoi_3 by (auto intro!: getEnvAsInt_parsed)
  moreover have "\<forall>s n. Atoi s = Inr n \<longleftrightarrow> parseDecimal s = Some n"
    by (simp add: Atoi_parseDecimal)
  ultimately show ?thesis
    unfolding m r by (auto simp: getEnvAsInt_decimal intro!: getEnvAsInt_not_decimal)
qed

theorem int_fields_resolved_witness:
  "MaxConnections (Database (fst (Load exactFrac
      (Map.empty(''DB_MAX_CONNECTIONS'' \<mapsto> ''notanumber'', ''REDIS_DB'' \<mapsto> ''3''))))) = 25
   \<and> DB (Redis (fst (Load exactFrac
      (Map.empty(''DB_MAX_CONNECTIONS'' \<mapsto> ''notanumber'', ''REDIS_DB'' \<mapsto> ''3''))))) = 3
   \<and> MaxConnections (Database (fst (Load exactFrac Map.empty))) = 25
   \<and> DB (Redis (fst (Load exactFrac Map.empty))) = 0"
proof -
  let ?e = "Map.empty(''DB_MAX_CONNECTIONS'' \<mapsto> ''notanumber'', ''REDIS_DB'' \<mapsto> ''3'')"
  have a: "?e ''DB_MAX_CONNECTIONS'' = Some ''notanumber''" by simp
  have b: "?e ''REDIS_DB'' = Some ''3''" by simp
  have c: "(Map.empty :: environ) ''DB_MAX_CONNECTIONS'' = None" by simp
  have d: "(Map.empty :: environ) ''REDIS_DB'' = None" by simp
  show ?thesis
    using a b c d int_fields_resolved [of ?e exactFrac]
      int_fields_resolved [of Map.empty exactFrac]
    by blast
qed

text \<open>
  Claim C4. For the two duration fields (\<open>DB_MAX_IDLE_TIME\<close>, \<open>JWT_EXPIRES_IN\<close>): when
  the variable holds a string that is valid under the duration grammar, the field is the
  duration it denotes; when the variable is missing or its value is not valid, the field
  is the default (15 minutes and 24 hours).

  The theorem says this three times over. First relative to \<open>ParseDuration\<close>, the parser
  the code calls. Second relative to \<open>durationValue\<close>, a description of the grammar
  and its values that does not go through the parser's loops: the string is cut into
  groups, and each group is evaluated from the numbers its digits denote. It accepts
  exactly the strings \<open>ParseDuration\<close> accepts, with the same value. Third for strings written out
  from a sign and a list of groups, whose value is the sum of the groups. A fractional
  group is worth its whole part times the unit plus what the fraction conversion yields
  for the fraction, so the statements hold whatever the conversion is.

  In particular \<open>48h\<close> gives exactly 48 hours, \<open>15m\<close> 15 minutes, \<open>1h30m\<close> 90 minutes,
  \<open>-30m\<close> minus 30 minutes, and \<open>1.5h\<close> one hour plus the conversion of five tenths of an
  hour; \<open>nope\<close> and \<open>10\<close> (no unit) give the default.
\<close>

theorem duration_fields_resolved:
  "(\<forall>v d. env ''DB_MAX_IDLE_TIME'' = Some v \<and> ParseDuration frac v = Inr d \<longrightarrow>
      MaxIdleTime (Database (fst (Load frac env))) = d)
   \<and> (env ''DB_MAX_IDLE_TIME'' = None
        \<or> (\<exists>v e. env ''DB_MAX_IDLE_TIME'' = Some v \<and> ParseDuration frac v = Inl e) \<longrightarrow>
      MaxIdleTime (Database (fst (Load frac env))) = 15 * Minute)
   \<and> (\<forall>v d. env ''JWT_EXPIRES_IN'' = Some v \<and> ParseDuration frac v = Inr d \<longrightarrow>
      ExpiresIn (JWT (fst (Load frac env))) = d)
   \<and> (env ''JWT_EXPIRES_IN'' = None
        \<or> (\<exists>v e. env ''JWT_EXPIRES_IN'' = Some v \<and> ParseDuration frac v = Inl e) \<longrightarrow>
      ExpiresIn (JWT (fst (Load frac env))) = 24 * Hour)
   \<and> (\<forall>ds u k. env ''DB_MAX_IDLE_TIME'' = Some (ds @ u) \<and> isNumeral ds \<and> unitMap u = Some k
        \<and> decimal ds * k < 2 ^ 63 \<longrightarrow>
      MaxIdleTime (Database (fst (Load frac env))) = int (decimal ds * k))
   \<and> (\<forall>ds u k. env ''JWT_EXPIRES_IN'' = Some (ds @ u) \<and> isNumeral ds \<and> unitMap u = Some k
        \<and> decimal ds * k < 2 ^ 63 \<longrightarrow>
      ExpiresIn (JWT (fst (Load frac env))) = int (decimal ds * k))
   \<and> (env ''JWT_EXPIRES_IN'' = Some ''48h'' \<longrightarrow>
      ExpiresIn (JWT (fst (Load frac env))) = 48 * Hour)
   \<and> (env ''DB_MAX_IDLE_TIME'' = Some ''15m'' \<longrightarrow>
      MaxIdleTime (Database (fst (Load frac env))) = 15 * Minute)
   \<and> (env ''JWT_EXPIRES_IN'' = Some ''nope'' \<longrightarrow>
      ExpiresIn (JWT (fst (Load frac env))) = 24 * Hour)
   \<and> Hour = 3600 * 1000000000 \<and> Minute = 60 * 1000000000
   \<and> (\<forall>s d. ParseDuration frac s = Inr d \<longleftrightarrow> durationValue frac s = Some d)
   \<and> (\<forall>v d. env ''DB_MAX_IDLE_TIME'' = Some v \<and> durationValue frac v = Some d \<longrightarrow>
      MaxIdleTime (Database (fst (Load frac env))) = d)
   \<and> (env ''DB_MAX_IDLE_TIME'' = None
        \<or> (\<exists>v. env ''DB_MAX_IDLE_TIME'' = Some v \<and> durationValue frac v = None) \<longrightarrow>
      MaxIdleTime (Database (fst (Load frac env))) = 15 * Minute)
   \<and> (\<forall>v d. env ''JWT_EXPIRES_IN'' = Some v \<and> durationValue frac v = Some d \<longrightarrow>
      ExpiresIn (JWT (fst (Load frac env))) = d)
   \<and> (env ''JWT_EXPIRES_IN'' = None
        \<or> (\<exists>v. env ''JWT_EXPIRES_IN'' = Some v \<and> durationValue frac v = None) \<longrightarrow>
      ExpiresIn (JWT (fst (Load frac env))) = 24 * Hour)
   \<and> (\<forall>sign gs. (sign = [] \<or> sign = ''+'' \<or> sign = ''-'') \<and> gs \<noteq> []
        \<and> list_all wellFormed gs \<longrightarrow>
      durationValue frac (sign @ concat (map render gs)) =
        (case sumGroups frac gs 0 of
           None \<Rightarrow> None
         | Some d \<Rightarrow>
             if sign = ''-'' then Some (- int d)
             else if d > 2 ^ 63 - 1 then None
             else Some (int d)))
   \<and> (env ''JWT_EXPIRES_IN'' = Some ''1.5h'' \<longrightarrow>
      ExpiresIn (JWT (fst (Load frac env))) =
        (let v = (3600000000000 + frac 5 3600000000000 10 mod 2 ^ 64) mod 2 ^ 64
         in if v < 2 ^ 63 then int v else 24 * Hour))
   \<and> (env ''JWT_EXPIRES_IN'' = Some ''1.5h'' \<and> frac 5 3600000000000 10 = 1800000000000 \<longrightarrow>
      ExpiresIn (JWT (fst (Load frac env))) = 5400000000000)
   \<and> (env ''JWT_EXPIRES_IN'' = Some ''1h30m'' \<longrightarrow>
      ExpiresIn (JWT (fst (Load frac env))) = 5400000000000)
   \<and> (env ''DB_MAX_IDLE_TIME'' = Some ''-30m'' \<longrightarrow>
      MaxIdleTime (Database (fst (Load frac env))) = - 1800000000000)
   \<and> (env ''DB_MAX_IDLE_TIME'' = Some ''10'' \<longrightarrow>
      MaxIdleTime (Database (fst (Load frac env))) = 15 * Minute)"
proof -
  have m: "MaxIdleTime (Database (fst (Load frac env))) =
      getEnvAsDuration frac env ''DB_MAX_IDLE_TIME'' (15 * Minute)"
    by (simp add: Load_def)
  have j: "ExpiresIn (JWT (fst (Load frac env))) =
      getEnvAsDuration frac env ''JWT_EXPIRES_IN'' (24 * Hour)"
    by (simp add: Load_def)
  have parsed: "getEnvAsDuration frac env key dflt = x"
    if "env key = Some v" and "ParseDuration frac v = Inr x" for key dflt v x
    using that by (rule getEnvAsDuration_parsed)
  have rejected: "getEnvAsDuration frac env key dflt = dflt"
    if "env key = Some v" and "ParseDuration frac v = Inl e" for key dflt v e
    using that by (intro getEnvAsDuration_default) blast
  have c1: "\<forall>v d. env ''DB_MAX_IDLE_TIME'' = Some v \<and> ParseDuration frac v = Inr d \<longrightarrow>
      getEnvAsDuration frac env ''DB_MAX_IDLE_TIME'' (15 * Minute) = d"
    by (blast intro: parsed)
  have c2: "env ''DB_MAX_IDLE_TIME'' = None
        \<or> (\<exists>v e. env ''DB_MAX_IDLE_TIME'' = Some v \<and> ParseDuration frac v = Inl e) \<longrightarrow>
      getEnvAsDuration frac env ''DB_MAX_IDLE_TIME'' (15 * Minute) = 15 * Minute"
    by (blast intro: getEnvAsDuration_default)
  have c3: "\<forall>v d. env ''JWT_EXPIRES_IN'' = Some v \<and> ParseDuration frac v = Inr d \<longrightarrow>
      getEnvAsDuration frac env ''JWT_EXPIRES_IN'' (24 * Hour) = d"
    by (blast intro: parsed)
  have c4: "env ''JWT_EXPIRES_IN'' = None
        \<or> (\<exists>v e. env ''JWT_EXPIRES_IN'' = Some v \<and> ParseDuration frac v = Inl e) \<longrightarrow>
      getEnvAsDuration frac env ''JWT_EXPIRES_IN'' (24 * Hour) = 24 * Hour"
    by (blast intro: getEnvAsDuration_default)
  have c5: "\<forall>ds u k. env ''DB_MAX_IDLE_TIME'' = Some (ds @ u) \<and> isNumeral ds
        \<and> unitMap u = Some k \<and> decimal ds * k < 2 ^ 63 \<longrightarrow>
      getEnvAsDuration frac env ''DB_MAX_IDLE_TIME'' (15 * Minute) = int (decimal ds * k)"
    by (blast intro: getEnvAsDuration_simple)
  have c6: "\<forall>ds u k. env ''JWT_EXPIRES_IN'' = Some (ds @ u) \<and> isNumeral ds
        \<and> unitMap u = Some k \<and> decimal ds * k < 2 ^ 63 \<longrightarrow>
      getEnvAsDuration frac env ''JWT_EXPIRES_IN'' (24 * Hour) = int (decimal ds * k)"
    by (blast intro: getEnvAsDuration_simple)
  have c7: "env ''JWT_EXPIRES_IN'' = Some ''48h'' \<longrightarrow>
      getEnvAsDuration frac env ''JWT_EXPIRES_IN'' (24 * Hour) = 48 * Hour"
    using ParseDuration_48h by (blast intro: parsed)
  have c8: "env ''DB_MAX_IDLE_TIME'' = Some ''15m'' \<longrightarrow>
      getEnvAsDuration frac env ''DB_MAX_IDLE_TIME'' (15 * Minute) = 15 * Minute"
    using ParseDuration_15m by (blast intro: parsed)
  have c9: "env ''JWT_EXPIRES_IN'' = Some ''nope'' \<longrightarrow>
      getEnvAsDuration frac env ''JWT_EXPIRES_IN'' (24 * Hour) = 24 * Hour"
    using ParseDuration_nope by (blast intro: rejected)
  have c10: "Hour = 3600 * 1000000000 \<and> Minute = 60 * 1000000000"
    by (simp add: Hour_def Minute_def Second_def Millisecond_def Microsecond_def
        Nanosecond_def)
  have c11: "\<forall>s d. ParseDuration frac s = Inr d \<longleftrightarrow> durationValue frac s = Some d"
    by (simp add: ParseDuration_durationValue)
  have c12: "\<forall>v d. env ''DB_MAX_IDLE_TIME'' = Some v \<and> durationValue frac v = Some d \<longrightarrow>
      getEnvAsDuration frac env ''DB_MAX_IDLE_TIME'' (15 * Minute) = d"
    by (blast intro: getEnvAsDuration_value)
  have c13: "env ''DB_MAX_IDLE_TIME'' = None
        \<or> (\<exists>v. env ''DB_MAX_IDLE_TIME'' = Some v \<and> durationValue frac v = None) \<longrightarrow>
      getEnvAsDuration frac env ''DB_MAX_IDLE_TIME'' (15 * Minute) = 15 * Minute"
    by (blast intro: getEnvAsDuration_no_value)
  have c14: "\<forall>v d. env ''JWT_EXPIRES_IN'' = Some v \<and> durationValue frac v = Some d \<longrightarrow>
      getEnvAsDuration frac env ''JWT_EXPIRES_IN'' (24 * Hour) = d"
    by (blast intro: getEnvAsDuration_value)
  have c15: "env ''JWT_EXPIRES_IN'' = None
        \<or> (\<exists>v. env ''JWT_EXPIRES_IN'' = Some v \<and> durationValue frac v = None) \<longrightarrow>
      getEnvAsDuration frac env ''JWT_EXPIRES_IN'' (24 * Hour) = 24 * Hour"
    by (blast intro: getEnvAsDuration_no_value)
  have c16: "\<forall>sign gs. (sign = [] \<or> sign = ''+'' \<or> sign = ''-'') \<and> gs \<noteq> []
        \<and> list_all wellFormed gs \<longrightarrow>
      durationValue frac (sign @ concat (map render gs)) =
        (case sumGroups frac gs 0 of
           None \<Rightarrow> None
         | Some d \<Rightarrow>
             if sign = ''-'' then Some (- int d)
             else if d > 2 ^ 63 - 1 then None
             else Some (int d))"
    by (blast intro: durationValue_groups)
  have c17: "env ''JWT_EXPIRES_IN'' = Some ''1.5h'' \<longrightarrow>
      getEnvAsDuration frac env ''JWT_EXPIRES_IN'' (24 * Hour) =
        (let v = (3600000000000 + frac 5 3600000000000 10 mod 2 ^ 64) mod 2 ^ 64
         in if v < 2 ^ 63 then int v else 24 * Hour)"
    unfolding Let_def
  proof
    assume e: "env ''JWT_EXPIRES_IN'' = Some ''1.5h''"
    define v where "v = (3600000000000 + frac 5 3600000000000 10 mod 2 ^ 64) mod 2 ^ 64"
    have pd: "ParseDuration frac ''1.5h'' =
        (if v < 2 ^ 63 then Inr (int v) else Inl InvalidDuration)"
      unfolding v_def ParseDuration_1_5h_frac Let_def ..
    have "getEnvAsDuration frac env ''JWT_EXPIRES_IN'' (24 * Hour) =
        (if v < 2 ^ 63 then int v else 24 * Hour)"
    proof (cases "v < 2 ^ 63")
      case True
      with pd have "ParseDuration frac ''1.5h'' = Inr (int v)" by simp
      with e have "getEnvAsDuration frac env ''JWT_EXPIRES_IN'' (24 * Hour) = int v"
        by (rule parsed)
      with True show ?thesis by simp
    next
      case False
      with pd have "ParseDuration frac ''1.5h'' = Inl InvalidDuration" by simp
      with e have "getEnvAsDuration frac env ''JWT_EXPIRES_IN'' (24 * Hour) = 24 * Hour"
        by (rule rejected)
      with False show ?thesis by simp
    qed
    then show "getEnvAsDuration frac env ''JWT_EXPIRES_IN'' (24 * Hour) =
        (if (3600000000000 + frac 5 3600000000000 10 mod 2 ^ 64) mod 2 ^ 64 < 2 ^ 63
         then int ((3600000000000 + frac 5 3600000000000 10 mod 2 ^ 64) mod 2 ^ 64)
         else 24 * Hour)"
      unfolding v_def .
  qed
  have c18: "env ''JWT_EXPIRES_IN'' = Some ''1.5h'' \<and> frac 5 3600000000000 10 = 1800000000000
      \<longrightarrow> getEnvAsDuration frac env ''JWT_EXPIRES_IN'' (24 * Hour) = 5400000000000"
    using ParseDuration_1_5h [of frac] by (blast intro: parsed)
  have c19: "env ''JWT_EXPIRES_IN'' = Some ''1h30m'' \<longrightarrow>
      getEnvAsDuration frac env ''JWT_EXPIRES_IN'' (24 * Hour) = 5400000000000"
    using ParseDuration_1h30m by (blast intro: parsed)
  have c20: "env ''DB_MAX_IDLE_TIME'' = Some ''-30m'' \<longrightarrow>
      getEnvAsDuration frac env ''DB_MAX_IDLE_TIME'' (15 * Minute) = - 1800000000000"
    using ParseDuration_minus_30m by (blast intro: parsed)
  have c21: "env ''DB_MAX_IDLE_TIME'' = Some ''10'' \<longrightarrow>
      getEnvAsDuration frac env ''DB_MAX_IDLE_TIME'' (15 * Minute) = 15 * Minute"
    using ParseDuration_missing_unit by (blast intro: rejected)
  show ?thesis
    unfolding m j
    by (intro conjI c1 c2 c3 c4 c5 c6 c7 c8 c9 c10 [THEN conjunct1] c10 [THEN conjunct2]
        c11 c12 c13 c14 c15 c16 c17 c18 c19 c20 c21)
qed

theorem duration_fields_resolved_witness:
  "ExpiresIn (JWT (fst (Load exactFrac
      (Map.empty(''JWT_EXPIRES_IN'' \<mapsto> ''48h'', ''DB_MAX_IDLE_TIME'' \<mapsto> ''15m''))))) = 48 * Hour
   \<and> MaxIdleTime (Database (fst (Load exactFrac
      (Map.empty(''JWT_EXPIRES_IN'' \<mapsto> ''48h'', ''DB_MAX_IDLE_TIME'' \<mapsto> ''15m''))))) = 15 * Minute
   \<and> ExpiresIn (JWT (fst (Load exactFrac (Map.empty(''JWT_EXPIRES_IN'' \<mapsto> ''nope''))))) = 24 * Hour
   \<and> MaxIdleTime (Database (fst (Load exactFrac (Map.empty(''JWT_EXPIRES_IN'' \<mapsto> ''nope''))))) = 15 * Minute
   \<and> ExpiresIn (JWT (fst (Load exactFrac
      (Map.empty(''JWT_EXPIRES_IN'' \<mapsto> ''1.5h'', ''DB_MAX_IDLE_TIME'' \<mapsto> ''-30m''))))) = 5400000000000
   \<and> MaxIdleTime (Database (fst (Load exactFrac
      (Map.empty(''JWT_EXPIRES_IN'' \<mapsto> ''1.5h'', ''DB_MAX_IDLE_TIME'' \<mapsto> ''-30m''))))) = - 1800000000000"
proof -
  let ?e = "Map.empty(''JWT_EXPIRES_IN'' \<mapsto> ''48h'', ''DB_MAX_IDLE_TIME'' \<mapsto> ''15m'')"
  let ?n = "Map.empty(''JWT_EXPIRES_IN'' \<mapsto> ''nope'')"
  let ?f = "Map.empty(''JWT_EXPIRES_IN'' \<mapsto> ''1.5h'', ''DB_MAX_IDLE_TIME'' \<mapsto> ''-30m'')"
  have a: "?e ''JWT_EXPIRES_IN'' = Some ''48h''" by simp
  have b: "?e ''DB_MAX_IDLE_TIME'' = Some ''15m''" by simp
  have c: "?n ''JWT_EXPIRES_IN'' = Some ''nope''" by simp
  have d: "?n ''DB_MAX_IDLE_TIME'' = None" by simp
  have f: "?f ''JWT_EXPIRES_IN'' = Some ''1.5h'' \<and> exactFrac 5 3600000000000 10 = 1800000000000"
    by (simp add: exactFrac_def)
  have g: "?f ''DB_MAX_IDLE_TIME'' = Some ''-30m''" by simp
  note t1 = duration_fields_resolved [of ?e exactFrac]
  note t2 = duration_fields_resolved [of ?n exactFrac]
  note t3 = duration_fields_resolved [of ?f exactFrac]
  have "ExpiresIn (JWT (fst (Load exactFrac ?e))) = 48 * Hour"
    using a t1 by blast
  moreover have "MaxIdleTime (Database (fst (Load exactFrac ?e))) = 15 * Minute"
    using b t1 by blast
  moreover have "ExpiresIn (JWT (fst (Load exactFrac ?n))) = 24 * Hour"
    using c t2 by blast
  moreover have "MaxIdleTime (Database (fst (Load exactFrac ?n))) = 15 * Minute"
    using d t2 by blast
  moreover have "ExpiresIn (JWT (fst (Load exactFrac ?f))) = 5400000000000"
    using f t3 by blast
  moreover have "MaxIdleTime (Database (fst (Load exactFrac ?f))) = - 1800000000000"
    using g t3 by blast
  ultimately show ?thesis by blast
qed

text \<open>
  Claim C5. Every string that \<open>Load\<close> resolves follows the rule for string fields: when
  the variable is set to a non-empty value the field is that value, byte for byte; when
  it is unset or set to the empty string the field is the default literal. The resolved
  \<open>ALLOWED_ORIGINS\<close> string is not a field itself; it is what the \<open>Origins\<close> pieces
  join to.
\<close>

theorem string_fields_resolved:
  "string_field_resolved env ''APP_NAME'' ''Flex Media Server''
     (AppConfig.Name (App (fst (Load frac env))))
   \<and> string_field_resolved env ''ENV'' ''development''
     (Environment (App (fst (Load frac env))))
   \<and> string_field_resolved env ''HOST'' ''0.0.0.0''
     (AppConfig.Host (App (fst (Load frac env))))
   \<and> string_field_resolved env ''PORT'' ''8080''
     (AppConfig.Port (App (fst (Load frac env))))
   \<and> string_field_resolved env ''ALLOWED_ORIGINS'' ''http://localhost:3000''
     (Join (Origins (App (fst (Load frac env)))) (CHR '',''))
   \<and> string_field_resolved env ''DB_HOST'' ''localhost''
     (DatabaseConfig.Host (Database (fst (Load frac env))))
   \<and> string_field_resolved env ''DB_PORT'' ''5432''
     (DatabaseConfig.Port (Database (fst (Load frac env))))
   \<and> string_field_resolved env ''DB_USER'' ''flex_user''
     (User (Database (fst (Load frac env))))
   \<and> string_field_resolved env ''DB_PASSWORD'' ''flex_password''
     (DatabaseConfig.Password (Database (fst (Load frac env))))
   \<and> string_field_resolved env ''DB_NAME'' ''flex_dev''
     (DatabaseConfig.Name (Database (fst (Load frac env))))
   \<and> string_field_resolved env ''DB_SSLMODE'' ''disable''
     (SSLMode (Database (fst (Load frac env))))
   \<and> string_field_resolved env ''REDIS_HOST'' ''localhost''
     (RedisConfig.Host (Redis (fst (Load frac env))))
   \<and> string_field_resolved env ''REDIS_PORT'' ''6379''
     (RedisConfig.Port (Redis (fst (Load frac env))))
   \<and> string_field_resolved env ''REDIS_PASSWORD'' []
     (RedisConfig.Password (Redis (fst (Load frac env))))
   \<and> string_field_resolved env ''JWT_SECRET'' ''your-secret-key''
     (Secret (JWT (fst (Load frac env))))
   \<and> string_field_resolved env ''MEDIA_ROOT_PATH'' ''/media/library''
     (RootPath (Media (fst (Load frac env))))
   \<and> string_field_resolved env ''UPLOAD_PATH'' ''/tmp/flex-uploads''
     (UploadPath (Media (fst (Load frac env))))
   \<and> string_field_resolved env ''POSTER_PATH'' ''/tmp/flex-posters''
     (PosterPath (Media (fst (Load frac env))))
   \<and> string_field_resolved env ''THUMBNAIL_PATH'' ''/tmp/flex-thumbnails''
     (ThumbnailPath (Media (fst (Load frac env))))
   \<and> string_field_resolved env ''FFMPEG_PATH'' ''ffmpeg''
     (FFmpegPath (Media (fst (Load frac env))))
   \<and> string_field_resolved env ''MEDIAINFO_PATH'' ''mediainfo''
     (MediaInfoPath (Media (fst (Load frac env))))
   \<and> string_field_resolved env ''TMDB_API_KEY'' []
     (TMDBAPIKey (External (fst (Load frac env))))
   \<and> string_field_resolved env ''OMDB_API_KEY'' []
     (OMDBAPIKey (External (fst (Load frac env))))
   \<and> string_field_resolved env ''LOG_LEVEL'' ''info''
     (Level (Logging (fst (Load frac env))))
   \<and> string_field_resolved env ''LOG_FORMAT'' ''console''
     (Format (Logging (fst (Load frac env))))"
  by (simp add: Load_def getEnv_resolved Join_Split)

theorem string_fields_resolved_witness:
  "AppConfig.Host (App (fst (Load exactFrac
      (Map.empty(''HOST'' \<mapsto> '' 10.0.0.1 '', ''PORT'' \<mapsto> [], ''LOG_LEVEL'' \<mapsto> ''debug''))))) = '' 10.0.0.1 ''
   \<and> AppConfig.Port (App (fst (Load exactFrac
      (Map.empty(''HOST'' \<mapsto> '' 10.0.0.1 '', ''PORT'' \<mapsto> [], ''LOG_LEVEL'' \<mapsto> ''debug''))))) = ''8080''
   \<and> Level (Logging (fst (Load exactFrac
      (Map.empty(''HOST'' \<mapsto> '' 10.0.0.1 '', ''PORT'' \<mapsto> [], ''LOG_LEVEL'' \<mapsto> ''debug''))))) = ''debug''
   \<and> Format (Logging (fst (Load exactFrac
      (Map.empty(''HOST'' \<mapsto> '' 10.0.0.1 '', ''PORT'' \<mapsto> [], ''LOG_LEVEL'' \<mapsto> ''debug''))))) = ''console''"
proof -
  let ?e = "Map.empty(''HOST'' \<mapsto> '' 10.0.0.1 '', ''PORT'' \<mapsto> [], ''LOG_LEVEL'' \<mapsto> ''debug'')"
  show ?thesis
    using string_fields_resolved [of ?e exactFrac]
    unfolding string_field_resolved_def
    by simp
qed

text \<open>
  Claim C6. The \<open>Origins\<close> field is the resolved \<open>ALLOWED_ORIGINS\<close> string split at
  the commas. Order is preserved and nothing is trimmed: joining the pieces with commas
  gives the resolved string back byte for byte, and no piece contains a comma. The value
  \<open>http://a.com,http://b.com\<close> yields the two origins in that order, and an unset
  variable yields the single default origin.
\<close>

theorem Origins_split:
  "Origins (App (fst (Load frac env))) =
     Split (getEnv env ''ALLOWED_ORIGINS'' ''http://localhost:3000'') (CHR '','')
   \<and> Join (Origins (App (fst (Load frac env)))) (CHR '','') =
       getEnv env ''ALLOWED_ORIGINS'' ''http://localhost:3000''
   \<and> (\<forall>x \<in> set (Origins (App (fst (Load frac env)))). CHR '','' \<notin> set x)
   \<and> (env ''ALLOWED_ORIGINS'' = Some ''http://a.com,http://b.com'' \<longrightarrow>
        Origins (App (fst (Load frac env))) = [''http://a.com'', ''http://b.com''])
   \<and> (env ''ALLOWED_ORIGINS'' = None \<longrightarrow>
        Origins (App (fst (Load frac env))) = [''http://localhost:3000''])"
proof -
  have "\<forall>x \<in> set (Origins (App (fst (Load frac env)))). CHR '','' \<notin> set x"
    unfolding Origins_Load by (blast dest: Split_no_sep)
  moreover have "env ''ALLOWED_ORIGINS'' = Some ''http://a.com,http://b.com'' \<longrightarrow>
        Origins (App (fst (Load frac env))) = [''http://a.com'', ''http://b.com'']"
    by (simp add: Origins_Load getEnv_set Split_eval1)
  moreover have "env ''ALLOWED_ORIGINS'' = None \<longrightarrow>
        Origins (App (fst (Load frac env))) = [''http://localhost:3000'']"
    by (simp add: Origins_Load getEnv_unset Split_eval2)
  ultimately show ?thesis
    by (simp add: Origins_Load Join_Split)
qed

theorem Origins_split_witness:
  "Origins (App (fst (Load exactFrac
      (Map.empty(''ALLOWED_ORIGINS'' \<mapsto> ''http://a.com,http://b.com''))))) =
     [''http://a.com'', ''http://b.com'']
   \<and> CHR '','' \<notin> set ''http://a.com'' \<and> CHR '','' \<notin> set ''http://b.com''
   \<and> Origins (App (fst (Load exactFrac Map.empty))) = [''http://localhost:3000'']"
proof -
  have isset: "(Map.empty(''ALLOWED_ORIGINS'' \<mapsto> ''http://a.com,http://b.com''))
      ''ALLOWED_ORIGINS'' = Some ''http://a.com,http://b.com''"
    by simp
  have unset: "(Map.empty :: environ) ''ALLOWED_ORIGINS'' = None"
    by simp
  have a: "Origins (App (fst (Load exactFrac
      (Map.empty(''ALLOWED_ORIGINS'' \<mapsto> ''http://a.com,http://b.com''))))) =
     [''http://a.com'', ''http://b.com'']"
    using isset Origins_split
      [of exactFrac "Map.empty(''ALLOWED_ORIGINS'' \<mapsto> ''http://a.com,http://b.com'')"]
    by blast
  have b: "\<forall>x \<in> set (Origins (App (fst (Load exactFrac
      (Map.empty(''ALLOWED_ORIGINS'' \<mapsto> ''http://a.com,http://b.com'')))))).
        CHR '','' \<notin> set x"
    using Origins_split
      [of exactFrac "Map.empty(''ALLOWED_ORIGINS'' \<mapsto> ''http://a.com,http://b.com'')"]
    by blast
  have c: "Origins (App (fst (Load exactFrac Map.empty))) = [''http://localhost:3000'']"
    using unset Origins_split [of exactFrac Map.empty] by blast
  from b have "CHR '','' \<notin> set ''http://a.com'' \<and> CHR '','' \<notin> set ''http://b.com''"
    unfolding a by simp
  with a c show ?thesis by blast
qed

text \<open>
  Claim C7, as stated: when \<open>ALLOWED_ORIGINS\<close> is set to the empty string, \<open>Origins\<close>
  is the one-element list holding the empty string. The code does not do that: \<open>getEnv\<close>
  treats an empty value like a missing one, so the default is split instead.
\<close>

theorem Origins_empty_value_counterexample:
  "Origins (App (fst (Load exactFrac (Map.empty(''ALLOWED_ORIGINS'' \<mapsto> []))))) \<noteq> [[]]"
  by (simp add: Origins_Load getEnv_def Getenv_def Split_eval2)

text \<open>
  Claim C7, amended. Splitting the empty string does yield the one-element list holding
  the empty string, but \<open>Load\<close> never splits an empty string: when \<open>ALLOWED_ORIGINS\<close> is
  set to the empty string, \<open>Origins\<close> is the single default origin.
\<close>

theorem Origins_empty_value:
  "Split [] (CHR '','') = [[]]
   \<and> (env ''ALLOWED_ORIGINS'' = Some [] \<longrightarrow>
        Origins (App (fst (Load frac env))) = [''http://localhost:3000''])"
  by (simp add: Origins_Load getEnv_unset Split_eval2 Split_eval3)

theorem Origins_empty_value_witness:
  "(Map.empty(''ALLOWED_ORIGINS'' \<mapsto> [])) ''ALLOWED_ORIGINS'' = Some []
   \<and> Origins (App (fst (Load exactFrac (Map.empty(''ALLOWED_ORIGINS'' \<mapsto> []))))) =
       [''http://localhost:3000'']"
  using Origins_empty_value [of "Map.empty(''ALLOWED_ORIGINS'' \<mapsto> [])" exactFrac]
  by simp

text \<open>
  Claim C8. Each field of the configuration depends on its own variable only: for two
  environments that agree on a variable, the field resolved from it is the same in the
  two configurations, however the other variables differ.
\<close>

theorem Load_noninterference:
  assumes "Load frac e1 = (c1, r1)" and "Load frac e2 = (c2, r2)"
  shows "(e1 ''APP_NAME'' = e2 ''APP_NAME'' \<longrightarrow> AppConfig.Name (App c1) = AppConfig.Name (App c2))
   \<and> (e1 ''ENV'' = e2 ''ENV'' \<longrightarrow> Environment (App c1) = Environment (App c2))
   \<and> (e1 ''HOST'' = e2 ''HOST'' \<longrightarrow> AppConfig.Host (App c1) = AppConfig.Host (App c2))
   \<and> (e1 ''PORT'' = e2 ''PORT'' \<longrightarrow> AppConfig.Port (App c1) = AppConfig.Port (App c2))
   \<and> (e1 ''ALLOWED_ORIGINS'' = e2 ''ALLOWED_ORIGINS'' \<longrightarrow> Origins (App c1) = Origins (App c2))
   \<and> (e1 ''DB_HOST'' = e2 ''DB_HOST'' \<longrightarrow> DatabaseConfig.Host (Database c1) = DatabaseConfig.Host (Database c2))
   \<and> (e1 ''DB_PORT'' = e2 ''DB_PORT'' \<longrightarrow> DatabaseConfig.Port (Database c1) = DatabaseConfig.Port (Database c2))
   \<and> (e1 ''DB_USER'' = e2 ''DB_USER'' \<longrightarrow> User (Database c1) = User (Database c2))
   \<and> (e1 ''DB_PASSWORD'' = e2 ''DB_PASSWORD'' \<longrightarrow> DatabaseConfig.Password (Database c1) = DatabaseConfig.Password (Database c2))
   \<and> (e1 ''DB_NAME'' = e2 ''DB_NAME'' \<longrightarrow> DatabaseConfig.Name (Database c1) = DatabaseConfig.Name (Database c2))
   \<and> (e1 ''DB_SSLMODE'' = e2 ''DB_SSLMODE'' \<longrightarrow> SSLMode (Database c1) = SSLMode (Database c2))
   \<and> (e1 ''DB_MAX_CONNECTIONS'' = e2 ''DB_MAX_CONNECTIONS'' \<longrightarrow> MaxConnections (Database c1) = MaxConnections (Database c2))
   \<and> (e1 ''DB_MAX_IDLE_TIME'' = e2 ''DB_MAX_IDLE_TIME'' \<longrightarrow> MaxIdleTime (Database c1) = MaxIdleTime (Database c2))
   \<and> (e1 ''REDIS_HOST'' = e2 ''REDIS_HOST'' \<longrightarrow> RedisConfig.Host (Redis c1) = RedisConfig.Host (Redis c2))
   \<and> (e1 ''REDIS_PORT'' = e2 ''REDIS_PORT'' \<longrightarrow> RedisConfig.Port (Redis c1) = RedisConfig.Port (Redis c2))
   \<and> (e1 ''REDIS_PASSWORD'' = e2 ''REDIS_PASSWORD'' \<longrightarrow> RedisConfig.Password (Redis c1) = RedisConfig.Password (Redis c2))
   \<and> (e1 ''REDIS_DB'' = e2 ''REDIS_DB'' \<longrightarrow> DB (Redis c1) = DB (Redis c2))
   \<and> (e1 ''JWT_SECRET'' = e2 ''JWT_SECRET'' \<longrightarrow> Secret (JWT c1) = Secret (JWT c2))
   \<and> (e1 ''JWT_EXPIRES_IN'' = e2 ''JWT_EXPIRES_IN'' \<longrightarrow> ExpiresIn (JWT c1) = ExpiresIn (JWT c2))
   \<and> (e1 ''MEDIA_ROOT_PATH'' = e2 ''MEDIA_ROOT_PATH'' \<longrightarrow> RootPath (Media c1) = RootPath (Media c2))
   \<and> (e1 ''UPLOAD_PATH'' = e2 ''UPLOAD_PATH'' \<longrightarrow> UploadPath (Media c1) = UploadPath (Media c2))
   \<and> (e1 ''POSTER_PATH'' = e2 ''POSTER_PATH'' \<longrightarrow> PosterPath (Media c1) = PosterPath (Media c2))
   \<and> (e1 ''THUMBNAIL_PATH'' = e2 ''THUMBNAIL_PATH'' \<longrightarrow> ThumbnailPath (Media c1) = ThumbnailPath (Media c2))
   \<and> (e1 ''FFMPEG_PATH'' = e2 ''FFMPEG_PATH'' \<longrightarrow> FFmpegPath (Media c1) = FFmpegPath (Media c2))
   \<and> (e1 ''MEDIAINFO_PATH'' = e2 ''MEDIAINFO_PATH'' \<longrightarrow> MediaInfoPath (Media c1) = MediaInfoPath (Media c2))
   \<and> (e1 ''TMDB_API_KEY'' = e2 ''TMDB_API_KEY'' \<longrightarrow> TMDBAPIKey (External c1) = TMDBAPIKey (External c2))
   \<and> (e1 ''OMDB_API_KEY'' = e2 ''OMDB_API_KEY'' \<longrightarrow> OMDBAPIKey (External c1) = OMDBAPIKey (External c2))
   \<and> (e1 ''LOG_LEVEL'' = e2 ''LOG_LEVEL'' \<longrightarrow> Level (Logging c1) = Level (Logging c2))
   \<and> (e1 ''LOG_FORMAT'' = e2 ''LOG_FORMAT'' \<longrightarrow> Format (Logging c1) = Format (Logging c2))"
proof -
  from assms have c: "c1 = fst (Load frac e1)" "c2 = fst (Load frac e2)"
    by simp_all
  show ?thesis
    unfolding c
    by (simp add: Load_def getEnv_def getEnvAsInt_def getEnvAsDuration_def Getenv_def)
qed

theorem Load_noninterference_witness:
  "AppConfig.Name (App (fst (Load exactFrac (Map.empty(''HOST'' \<mapsto> ''alpha'', ''PORT'' \<mapsto> ''9000'', ''REDIS_DB'' \<mapsto> ''3'', ''HOME'' \<mapsto> ''/root''))))) =
     AppConfig.Name (App (fst (Load exactFrac (Map.empty(''HOST'' \<mapsto> ''beta'', ''PORT'' \<mapsto> ''9000'', ''REDIS_DB'' \<mapsto> ''3'', ''HOME'' \<mapsto> ''/home/flex'')))))
   \<and> Environment (App (fst (Load exactFrac (Map.empty(''HOST'' \<mapsto> ''alpha'', ''PORT'' \<mapsto> ''9000'', ''REDIS_DB'' \<mapsto> ''3'', ''HOME'' \<mapsto> ''/root''))))) =
     Environment (App (fst (Load exactFrac (Map.empty(''HOST'' \<mapsto> ''beta'', ''PORT'' \<mapsto> ''9000'', ''REDIS_DB'' \<mapsto> ''3'', ''HOME'' \<mapsto> ''/home/flex'')))))
   \<and> AppConfig.Port (App (fst (Load exactFrac (Map.empty(''HOST'' \<mapsto> ''alpha'', ''PORT'' \<mapsto> ''9000'', ''REDIS_DB'' \<mapsto> ''3'', ''HOME'' \<mapsto> ''/root''))))) =
     AppConfig.Port (App (fst (Load exactFrac (Map.empty(''HOST'' \<mapsto> ''beta'', ''PORT'' \<mapsto> ''9000'', ''REDIS_DB'' \<mapsto> ''3'', ''HOME'' \<mapsto> ''/home/flex'')))))
   \<and> Origins (App (fst (Load exactFrac (Map.empty(''HOST'' \<mapsto> ''alpha'', ''PORT'' \<mapsto> ''9000'', ''REDIS_DB'' \<mapsto> ''3'', ''HOME'' \<mapsto> ''/root''))))) =
     Origins (App (fst (Load exactFrac (Map.empty(''HOST'' \<mapsto> ''beta'', ''PORT'' \<mapsto> ''9000'', ''REDIS_DB'' \<mapsto> ''3'', ''HOME'' \<mapsto> ''/home/flex'')))))
   \<and> DatabaseConfig.Host (Database (fst (Load exactFrac (Map.empty(''HOST'' \<mapsto> ''alpha'', ''PORT'' \<mapsto> ''9000'', ''REDIS_DB'' \<mapsto> ''3'', ''HOME'' \<mapsto> ''/root''))))) =
     DatabaseConfig.Host (Database (fst (Load exactFrac (Map.empty(''HOST'' \<mapsto> ''beta'', ''PORT'' \<mapsto> ''9000'', ''REDIS_DB'' \<mapsto> ''3'', ''HOME'' \<mapsto> ''/home/flex'')))))
   \<and> DatabaseConfig.Port (Database (fst (Load exactFrac (Map.empty(''HOST'' \<mapsto> ''alpha'', ''PORT'' \<mapsto> ''9000'', ''REDIS_DB'' \<mapsto> ''3'', ''HOME'' \<mapsto> ''/root''))))) =
     DatabaseConfig.Port (Database (fst (Load exactFrac (Map.empty(''HOST'' \<mapsto> ''beta'', ''PORT'' \<mapsto> ''9000'', ''REDIS_DB'' \<mapsto> ''3'', ''HOME'' \<mapsto> ''/home/flex'')))))
   \<and> User (Database (fst (Load exactFrac (Map.empty(''HOST'' \<mapsto> ''alpha'', ''PORT'' \<mapsto> ''9000'', ''REDIS_DB'' \<mapsto> ''3'', ''HOME'' \<mapsto> ''/root''))))) =
     User (Database (fst (Load exactFrac (Map.empty(''HOST'' \<mapsto> ''beta'', ''PORT'' \<mapsto> ''9000'', ''REDIS_DB'' \<mapsto> ''3'', ''HOME'' \<mapsto> ''/home/flex'')))))
   \<and> DatabaseConfig.Password (Database (fst (Load exactFrac (Map.empty(''HOST'' \<mapsto> ''alpha'', ''PORT'' \<mapsto> ''9000'', ''REDIS_DB'' \<mapsto> ''3'', ''HOME'' \<mapsto> ''/root''))))) =
     DatabaseConfig.Password (Database (fst (Load exactFrac (Map.empty(''HOST'' \<mapsto> ''beta'', ''PORT'' \<mapsto> ''9000'', ''REDIS_DB'' \<mapsto> ''3'', ''HOME'' \<mapsto> ''/home/flex'')))))
   \<and> DatabaseConfig.Name (Database (fst (Load exactFrac (Map.empty(''HOST'' \<mapsto> ''alpha'', ''PORT'' \<mapsto> ''9000'', ''REDIS_DB'' \<mapsto> ''3'', ''HOME'' \<mapsto> ''/root''))))) =
     DatabaseConfig.Name (Database (fst (Load exactFrac (Map.empty(''HOST'' \<mapsto> ''beta'', ''PORT'' \<mapsto> ''9000'', ''REDIS_DB'' \<mapsto> ''3'', ''HOME'' \<mapsto> ''/home/flex'')))))
   \<and> SSLMode (Database (fst (Load exactFrac (Map.empty(''HOST'' \<mapsto> ''alpha'', ''PORT'' \<mapsto> ''9000'', ''REDIS_DB'' \<mapsto> ''3'', ''HOME'' \<mapsto> ''/root''))))) =
     SSLMode (Database (fst (Load exactFrac (Map.empty(''HOST'' \<mapsto> ''beta'', ''PORT'' \<mapsto> ''9000'', ''REDIS_DB'' \<mapsto> ''3'', ''HOME'' \<mapsto> ''/home/flex'')))))
   \<and> MaxConnections (Database (fst (Load exactFrac (Map.empty(''HOST'' \<mapsto> ''alpha'', ''PORT'' \<mapsto> ''9000'', ''REDIS_DB'' \<mapsto> ''3'', ''HOME'' \<mapsto> ''/root''))))) =
     MaxConnections (Database (fst (Load exactFrac (Map.empty(''HOST'' \<mapsto> ''beta'', ''PORT'' \<mapsto> ''9000'', ''REDIS_DB'' \<mapsto> ''3'', ''HOME'' \<mapsto> ''/home/flex'')))))
   \<and> MaxIdleTime (Database (fst (Load exactFrac (Map.empty(''HOST'' \<mapsto> ''alpha'', ''PORT'' \<mapsto> ''9000'', ''REDIS_DB'' \<mapsto> ''3'', ''HOME'' \<mapsto> ''/root''))))) =
     MaxIdleTime (Database (fst (Load exactFrac (Map.empty(''HOST'' \<mapsto> ''beta'', ''PORT'' \<mapsto> ''9000'', ''REDIS_DB'' \<mapsto> ''3'', ''HOME'' \<mapsto> ''/home/flex'')))))
   \<and> RedisConfig.Host (Redis (fst (Load exactFrac (Map.empty(''HOST'' \<mapsto> ''alpha'', ''PORT'' \<mapsto> ''9000'', ''REDIS_DB'' \<mapsto> ''3'', ''HOME'' \<mapsto> ''/root''))))) =
     RedisConfig.Host (Redis (fst (Load exactFrac (Map.empty(''HOST'' \<mapsto> ''beta'', ''PORT'' \<mapsto> ''9000'', ''REDIS_DB'' \<mapsto> ''3'', ''HOME'' \<mapsto> ''/home/flex'')))))
   \<and> RedisConfig.Port (Redis (fst (Load exactFrac (Map.empty(''HOST'' \<mapsto> ''alpha'', ''PORT'' \<mapsto> ''9000'', ''REDIS_DB'' \<mapsto> ''3'', ''HOME'' \<mapsto> ''/root''))))) =
     RedisConfig.Port (Redis (fst (Load exactFrac (Map.empty(''HOST'' \<mapsto> ''beta'', ''PORT'' \<mapsto> ''9000'', ''REDIS_DB'' \<mapsto> ''3'', ''HOME'' \<mapsto> ''/home/flex'')))))
   \<and> RedisConfig.Password (Redis (fst (Load exactFrac (Map.empty(''HOST'' \<mapsto> ''alpha'', ''PORT'' \<mapsto> ''9000'', ''REDIS_DB'' \<mapsto> ''3'', ''HOME'' \<mapsto> ''/root''))))) =
     RedisConfig.Password (Redis (fst (Load exactFrac (Map.empty(''HOST'' \<mapsto> ''beta'', ''PORT'' \<mapsto> ''9000'', ''REDIS_DB'' \<mapsto> ''3'', ''HOME'' \<mapsto> ''/home/flex'')))))
   \<and> DB (Redis (fst (Load exactFrac (Map.empty(''HOST'' \<mapsto> ''alpha'', ''PORT'' \<mapsto> ''9000'', ''REDIS_DB'' \<mapsto> ''3'', ''HOME'' \<mapsto> ''/root''))))) =
     DB (Redis (fst (Load exactFrac (Map.empty(''HOST'' \<mapsto> ''beta'', ''PORT'' \<mapsto> ''9000'', ''REDIS_DB'' \<mapsto> ''3'', ''HOME'' \<mapsto> ''/home/flex'')))))
   \<and> Secret (JWT (fst (Load exactFrac (Map.empty(''HOST'' \<mapsto> ''alpha'', ''PORT'' \<mapsto> ''9000'', ''REDIS_DB'' \<mapsto> ''3'', ''HOME'' \<mapsto> ''/root''))))) =
     Secret (JWT (fst (Load exactFrac (Map.empty(''HOST'' \<mapsto> ''beta'', ''PORT'' \<mapsto> ''9000'', ''REDIS_DB'' \<mapsto> ''3'', ''HOME'' \<mapsto> ''/home/flex'')))))
   \<and> ExpiresIn (JWT (fst (Load exactFrac (Map.empty(''HOST'' \<mapsto> ''alpha'', ''PORT'' \<mapsto> ''9000'', ''REDIS_DB'' \<mapsto> ''3'', ''HOME'' \<mapsto> ''/root''))))) =
     ExpiresIn (JWT (fst (Load exactFrac (Map.empty(''HOST'' \<mapsto> ''beta'', ''PORT'' \<mapsto> ''9000'', ''REDIS_DB'' \<mapsto> ''3'', ''HOME'' \<mapsto> ''/home/flex'')))))
   \<and> RootPath (Media (fst (Load exactFrac (Map.empty(''HOST'' \<mapsto> ''alpha'', ''PORT'' \<mapsto> ''9000'', ''REDIS_DB'' \<mapsto> ''3'', ''HOME'' \<mapsto> ''/root''))))) =
     RootPath (Media (fst (Load exactFrac (Map.empty(''HOST'' \<mapsto> ''beta'', ''PORT'' \<mapsto> ''9000'', ''REDIS_DB'' \<mapsto> ''3'', ''HOME'' \<mapsto> ''/home/flex'')))))
   \<and> UploadPath (Media (fst (Load exactFrac (Map.empty(''HOST'' \<mapsto> ''alpha'', ''PORT'' \<mapsto> ''9000'', ''REDIS_DB'' \<mapsto> ''3'', ''HOME'' \<mapsto> ''/root''))))) =
     UploadPath (Media (fst (Load exactFrac (Map.empty(''HOST'' \<mapsto> ''beta'', ''PORT'' \<mapsto> ''9000'', ''REDIS_DB'' \<mapsto> ''3'', ''HOME'' \<mapsto> ''/home/flex'')))))
   \<and> PosterPath (Media (fst (Load exactFrac (Map.empty(''HOST'' \<mapsto> ''alpha'', ''PORT'' \<mapsto> ''9000'', ''REDIS_DB'' \<mapsto> ''3'', ''HOME'' \<mapsto> ''/root''))))) =
     PosterPath (Media (fst (Load exactFrac (Map.empty(''HOST'' \<mapsto> ''beta'', ''PORT'' \<mapsto> ''9000'', ''REDIS_DB'' \<mapsto> ''3'', ''HOME'' \<mapsto> ''/home/flex'')))))
   \<and> ThumbnailPath (Media (fst (Load exactFrac (Map.empty(''HOST'' \<mapsto> ''alpha'', ''PORT'' \<mapsto> ''9000'', ''REDIS_DB'' \<mapsto> ''3'', ''HOME'' \<mapsto> ''/root''))))) =
     ThumbnailPath (Media (fst (Load exactFrac (Map.empty(''HOST'' \<mapsto> ''beta'', ''PORT'' \<mapsto> ''9000'', ''REDIS_DB'' \<mapsto> ''3'', ''HOME'' \<mapsto> ''/home/flex'')))))
   \<and> FFmpegPath (Media (fst (Load exactFrac (Map.empty(''HOST'' \<mapsto> ''alpha'', ''PORT'' \<mapsto> ''9000'', ''REDIS_DB'' \<mapsto> ''3'', ''HOME'' \<mapsto> ''/root''))))) =
     FFmpegPath (Media (fst (Load exactFrac (Map.empty(''HOST'' \<mapsto> ''beta'', ''PORT'' \<mapsto> ''9000'', ''REDIS_DB'' \<mapsto> ''3'', ''HOME'' \<mapsto> ''/home/flex'')))))
   \<and> MediaInfoPath (Media (fst (Load exactFrac (Map.empty(''HOST'' \<mapsto> ''alpha'', ''PORT'' \<mapsto> ''9000'', ''REDIS_DB'' \<mapsto> ''3'', ''HOME'' \<mapsto> ''/root''))))) =
     MediaInfoPath (Media (fst (Load exactFrac (Map.empty(''HOST'' \<mapsto> ''beta'', ''PORT'' \<mapsto> ''9000'', ''REDIS_DB'' \<mapsto> ''3'', ''HOME'' \<mapsto> ''/home/flex'')))))
   \<and> TMDBAPIKey (External (fst (Load exactFrac (Map.empty(''HOST'' \<mapsto> ''alpha'', ''PORT'' \<mapsto> ''9000'', ''REDIS_DB'' \<mapsto> ''3'', ''HOME'' \<mapsto> ''/root''))))) =
     TMDBAPIKey (External (fst (Load exactFrac (Map.empty(''HOST'' \<mapsto> ''beta'', ''PORT'' \<mapsto> ''9000'', ''REDIS_DB'' \<mapsto> ''3'', ''HOME'' \<mapsto> ''/home/flex'')))))
   \<and> OMDBAPIKey (External (fst (Load exactFrac (Map.empty(''HOST'' \<mapsto> ''alpha'', ''PORT'' \<mapsto> ''9000'', ''REDIS_DB'' \<mapsto> ''3'', ''HOME'' \<mapsto> ''/root''))))) =
     OMDBAPIKey (External (fst (Load exactFrac (Map.empty(''HOST'' \<mapsto> ''beta'', ''PORT'' \<mapsto> ''9000'', ''REDIS_DB'' \<mapsto> ''3'', ''HOME'' \<mapsto> ''/home/flex'')))))
   \<and> Level (Logging (fst (Load exactFrac (Map.empty(''HOST'' \<mapsto> ''alpha'', ''PORT'' \<mapsto> ''9000'', ''REDIS_DB'' \<mapsto> ''3'', ''HOME'' \<mapsto> ''/root''))))) =
     Level (Logging (fst (Load exactFrac (Map.empty(''HOST'' \<mapsto> ''beta'', ''PORT'' \<mapsto> ''9000'', ''REDIS_DB'' \<mapsto> ''3'', ''HOME'' \<mapsto> ''/home/flex'')))))
   \<and> Format (Logging (fst (Load exactFrac (Map.empty(''HOST'' \<mapsto> ''alpha'', ''PORT'' \<mapsto> ''9000'', ''REDIS_DB'' \<mapsto> ''3'', ''HOME'' \<mapsto> ''/root''))))) =
     Format (Logging (fst (Load exactFrac (Map.empty(''HOST'' \<mapsto> ''beta'', ''PORT'' \<mapsto> ''9000'', ''REDIS_DB'' \<mapsto> ''3'', ''HOME'' \<mapsto> ''/home/flex'')))))"
  using Load_noninterference [of exactFrac
      "Map.empty(''HOST'' \<mapsto> ''alpha'', ''PORT'' \<mapsto> ''9000'', ''REDIS_DB'' \<mapsto> ''3'', ''HOME'' \<mapsto> ''/root'')"
      "fst (Load exactFrac (Map.empty(''HOST'' \<mapsto> ''alpha'', ''PORT'' \<mapsto> ''9000'', ''REDIS_DB'' \<mapsto> ''3'', ''HOME'' \<mapsto> ''/root'')))" "snd (Load exactFrac (Map.empty(''HOST'' \<mapsto> ''alpha'', ''PORT'' \<mapsto> ''9000'', ''REDIS_DB'' \<mapsto> ''3'', ''HOME'' \<mapsto> ''/root'')))"
      "Map.empty(''HOST'' \<mapsto> ''beta'', ''PORT'' \<mapsto> ''9000'', ''REDIS_DB'' \<mapsto> ''3'', ''HOME'' \<mapsto> ''/home/flex'')"
      "fst (Load exactFrac (Map.empty(''HOST'' \<mapsto> ''beta'', ''PORT'' \<mapsto> ''9000'', ''REDIS_DB'' \<mapsto> ''3'', ''HOME'' \<mapsto> ''/home/flex'')))" "snd (Load exactFrac (Map.empty(''HOST'' \<mapsto> ''beta'', ''PORT'' \<mapsto> ''9000'', ''REDIS_DB'' \<mapsto> ''3'', ''HOME'' \<mapsto> ''/home/flex'')))"]
  by simp

text \<open>
  Claim C9. Two calls of \<open>Load\<close> on the same environment return equal configurations
  (and equal errors): \<open>Load\<close> reads nothing but the environment and changes nothing.
  More generally, two environments in which the consulted variables read the same give
  the same result.
\<close>

theorem Load_deterministic:
  "(Load frac env = (c1, r1) \<and> Load frac env = (c2, r2) \<longrightarrow> c1 = c2 \<and> r1 = r2)
   \<and> ((\<forall>k \<in> set consulted. Getenv e1 k = Getenv e2 k) \<longrightarrow> Load frac e1 = Load frac e2)"
proof -
  have "Load frac e1 = Load frac e2" if "\<forall>k \<in> set consulted. Getenv e1 k = Getenv e2 k"
    using that
    by (simp add: consulted_def Load_def getEnv_def getEnvAsInt_def getEnvAsDuration_def)
  moreover have "c1 = c2 \<and> r1 = r2"
    if "Load frac env = (c1, r1)" and "Load frac env = (c2, r2)"
    using that by simp
  ultimately show ?thesis by blast
qed

theorem Load_deterministic_witness:
  "fst (Load exactFrac (Map.empty(''PORT'' \<mapsto> ''9000''))) =
     fst (Load exactFrac (Map.empty(''PORT'' \<mapsto> ''9000'')))
   \<and> Load exactFrac (Map.empty(''PORT'' \<mapsto> ''9000'', ''HOST'' \<mapsto> [])) =
       Load exactFrac (Map.empty(''PORT'' \<mapsto> ''9000'', ''HOME'' \<mapsto> ''/root''))"
proof -
  let ?e = "Map.empty(''PORT'' \<mapsto> ''9000'')"
  let ?a = "Map.empty(''PORT'' \<mapsto> ''9000'', ''HOST'' \<mapsto> [])"
  let ?b = "Map.empty(''PORT'' \<mapsto> ''9000'', ''HOME'' \<mapsto> ''/root'')"
  have p: "Load exactFrac ?e = (fst (Load exactFrac ?e), snd (Load exactFrac ?e))"
    by simp
  have g: "\<forall>k \<in> set consulted. Getenv ?a k = Getenv ?b k"
    by (simp add: consulted_def Getenv_def)
  from p Load_deterministic [of exactFrac ?e "fst (Load exactFrac ?e)" "snd (Load exactFrac ?e)"
      "fst (Load exactFrac ?e)" "snd (Load exactFrac ?e)"]
  have "fst (Load exactFrac ?e) = fst (Load exactFrac ?e)"
    by blast
  moreover from g Load_deterministic [of exactFrac ?e _ _ _ _ ?a ?b]
  have "Load exactFrac ?a = Load exactFrac ?b"
    by blast
  ultimately show ?thesis by blast
qed

text \<open>
  Claim C10. For every environment the \<open>Origins\<close> list has at least one element: the
  resolved \<open>ALLOWED_ORIGINS\<close> string is never empty, and splitting any string yields at
  least one piece.
\<close>

theorem Origins_nonempty:
  "Origins (App (fst (Load frac env))) \<noteq> []
   \<and> 1 \<le> length (Origins (App (fst (Load frac env))))
   \<and> getEnv env ''ALLOWED_ORIGINS'' ''http://localhost:3000'' \<noteq> []
   \<and> (\<forall>s. Split s (CHR '','') \<noteq> [])"
proof -
  have "Origins (App (fst (Load frac env))) \<noteq> []"
    by (simp add: Origins_Load Split_not_Nil)
  moreover from this have "1 \<le> length (Origins (App (fst (Load frac env))))"
    by (cases "Origins (App (fst (Load frac env)))") simp_all
  moreover have "getEnv env ''ALLOWED_ORIGINS'' ''http://localhost:3000'' \<noteq> []"
    by (rule getEnv_not_Nil) simp
  ultimately show ?thesis
    by (simp add: Split_not_Nil)
qed

theorem Origins_nonempty_witness:
  "Origins (App (fst (Load exactFrac (Map.empty(''ALLOWED_ORIGINS'' \<mapsto> []))))) \<noteq> []
   \<and> Origins (App (fst (Load exactFrac (Map.empty(''ALLOWED_ORIGINS'' \<mapsto> '',''))))) \<noteq> []"
  using Origins_nonempty [of exactFrac "Map.empty(''ALLOWED_ORIGINS'' \<mapsto> [])"]
    Origins_nonempty [of exactFrac "Map.empty(''ALLOWED_ORIGINS'' \<mapsto> '','')"]
  by simp

end
